theory Spec2Isabelle
  imports Main "HOL-Library.Stream"
begin

section \<open>The ingestion script \<open>ingest_data.py\<close>\<close>

text \<open>
  The script downloads a CSV file, opens a database engine, and loads the file into a table
  in batches of 100000 rows. Its own code is the control flow of \<open>download_file\<close> and
  \<open>main\<close>; everything else is a call into a library (\<open>requests\<close>, \<open>pandas\<close>,
  \<open>sqlalchemy\<close>, \<open>os\<close>). The embedding keeps the two functions statement by statement and
  passes the state of the outside world explicitly:
  \<^item> the working directory is a map from names to files or directories;
  \<^item> the database is a map from table names to tables;
  \<^item> the log is the list of records written through \<open>logging\<close>;
  \<^item> what the network, the CSV reader, the date parser and the database answer is given by
    an environment record, so that every theorem holds for every behaviour of the libraries.
  An exception is a value of type \<open>exn\<close>; an operation that may raise returns the exception
  (or \<open>None\<close>) together with the world it leaves behind.
\<close>

subsection \<open>Exceptions and log records\<close>

datatype exn =
    RequestException | HTTPError
  | FileNotFoundError | IsADirectoryError | IOError
  | EmptyDataError | ParserError | AttributeError | DateParseError
  | StopIteration
  | ArgumentError | DatabaseError

datatype level = INFO | ERROR

text \<open>One constructor for each \<open>logging\<close> call of the script. The elapsed time that line 83
  prints is left out: it has no effect on the run.\<close>

datatype message =
    Downloading string
  | Downloaded string
  | Failed_to_download exn
  | Exiting_due_to_download_error
  | Failed_to_connect exn
  | Table_created string
  | First_chunk_inserted
  | Inserted_another_chunk
  | Finished_ingesting
  | Error_processing_data exn
  | Temporary_file_deleted string

subsection \<open>Data frames and tables\<close>

datatype dtype = Int64 | Float64 | Bool | Object | Datetime64

datatype sqltype = BIGINT | FLOAT | BOOLEAN | TEXT | TIMESTAMP

fun sql_type :: "dtype \<Rightarrow> sqltype" where
  "sql_type Int64 = BIGINT"
| "sql_type Float64 = FLOAT"
| "sql_type Bool = BOOLEAN"
| "sql_type Object = TEXT"
| "sql_type Datetime64 = TIMESTAMP"

text \<open>A record of a frame is its index label and its fields by column name; a field that is
  absent is a missing value. The type \<open>'c\<close> of cells is left open.\<close>

type_synonym 'c fields = "(string \<times> 'c) list"

record 'c frame =
  columns :: "(string \<times> dtype) list"
  rows :: "(nat \<times> 'c fields) list"

record 'c table =
  tcolumns :: "(string \<times> sqltype) list"
  trows :: "(nat \<times> 'c fields) list"

datatype if_exists = Replace | Append

datatype engine = Engine string

subsection \<open>The world and the environment\<close>

datatype node = File string | Dir

record 'c world =
  fs :: "string \<rightharpoonup> node"
  db :: "string \<rightharpoonup> 'c table"
  log_records :: "(level \<times> message) list"
  sql_trace :: "(if_exists \<times> string \<times> nat) list"

text \<open>\<open>sql_trace\<close> lists the \<open>to_sql\<close> calls made so far (mode, table, number of rows),
  whether they succeeded or not.\<close>

record response =
  status_code :: nat
  content :: string
  broken_after :: "nat option"

text \<open>\<open>broken_after = Some k\<close>: the connection breaks after \<open>k\<close> chunks of the body have
  been delivered, and \<open>iter_content\<close> raises.\<close>

type_synonym 'c reader = "(exn + 'c frame) stream"

record 'c env =
  http_get :: "string \<Rightarrow> exn + response"
  create_engine :: "string \<Rightarrow> exn + engine"
  read_csv :: "string \<Rightarrow> nat \<Rightarrow> exn + 'c reader"
  to_dt :: "'c \<Rightarrow> 'c option"
  sql_fault :: "nat \<Rightarrow> exn option"

text \<open>
  \<^item> \<open>http_get url\<close> is what \<open>requests.get(url, stream=True)\<close> does;
  \<^item> \<open>create_engine s\<close> is what \<open>sqlalchemy.create_engine(s)\<close> does;
  \<^item> \<open>read_csv bytes chunksize\<close> is what \<open>pd.read_csv(..., iterator=True, chunksize=...)\<close>
    does on a file with these contents: it raises, or gives an iterator, the stream of the
    results of the successive calls of \<open>next\<close>;
  \<^item> \<open>to_dt c\<close> is the date-time that \<open>pd.to_datetime\<close> reads from a cell, \<open>None\<close> when the
    cell is malformed;
  \<^item> \<open>sql_fault n = Some e\<close>: the database makes the \<open>n\<close>-th \<open>to_sql\<close> call of the run
    raise \<open>e\<close>.
\<close>

definition info :: "message \<Rightarrow> 'c world \<Rightarrow> 'c world" where
  "info m w = w\<lparr>log_records := log_records w @ [(INFO, m)]\<rparr>"

definition error :: "message \<Rightarrow> 'c world \<Rightarrow> 'c world" where
  "error m w = w\<lparr>log_records := log_records w @ [(ERROR, m)]\<rparr>"

subsection \<open>Library calls\<close>

function chunks_of :: "nat \<Rightarrow> 'a list \<Rightarrow> 'a list list" where
  "chunks_of n xs = (if n = 0 \<or> xs = [] then [] else take n xs # chunks_of n (drop n xs))"
  by pat_completeness auto
termination
  by (relation "measure (\<lambda>(n, xs). length xs)") auto

declare chunks_of.simps [simp del]

text \<open>\<open>str.split(sep)\<close> for a one-character separator: never the empty list.\<close>

fun split_on :: "char \<Rightarrow> string \<Rightarrow> string list" where
  "split_on sep [] = [[]]"
| "split_on sep (c # cs) =
     (if c = sep then [] # split_on sep cs
      else (case split_on sep cs of [] \<Rightarrow> [[c]] | p # ps \<Rightarrow> (c # p) # ps))"

text \<open>\<open>response.raise_for_status()\<close>\<close>

definition raise_for_status :: "response \<Rightarrow> exn option" where
  "raise_for_status r = (if 400 \<le> status_code r \<and> status_code r < 600 then Some HTTPError else None)"

text \<open>\<open>response.iter_content(chunk_size)\<close>: the chunks delivered, and the exception that ends
  the iteration early, if any.\<close>

definition iter_content :: "response \<Rightarrow> nat \<Rightarrow> string list \<times> exn option" where
  "iter_content r chunk_size =
     (let cs = chunks_of chunk_size (content r) in
      case broken_after r of
        None \<Rightarrow> (cs, None)
      | Some k \<Rightarrow> if k < length cs then (take k cs, Some RequestException) else (cs, None))"

definition is_dir :: "'c world \<Rightarrow> string \<Rightarrow> bool" where
  "is_dir w p = (p = ''.'' \<or> p = ''..'' \<or> fs w p = Some Dir)"

text \<open>\<open>open(path, "wb")\<close>: creates the file or truncates it.\<close>

definition open_wb :: "string \<Rightarrow> 'c world \<Rightarrow> exn + 'c world" where
  "open_wb p w =
     (if p = [] then Inl FileNotFoundError
      else if is_dir w p then Inl IsADirectoryError
      else Inr (w\<lparr>fs := (fs w)(p \<mapsto> File [])\<rparr>))"

text \<open>\<open>f.write(chunk)\<close> on the file opened at \<open>p\<close>.\<close>

definition write_chunk :: "string \<Rightarrow> 'c world \<Rightarrow> string \<Rightarrow> 'c world" where
  "write_chunk p w chunk =
     (case fs w p of
        Some (File bytes) \<Rightarrow> w\<lparr>fs := (fs w)(p \<mapsto> File (bytes @ chunk))\<rparr>
      | _ \<Rightarrow> w)"

definition path_exists :: "'c world \<Rightarrow> string \<Rightarrow> bool" where
  "path_exists w p = (p \<noteq> [] \<and> (is_dir w p \<or> fs w p \<noteq> None))"

definition os_remove :: "string \<Rightarrow> 'c world \<Rightarrow> exn + 'c world" where
  "os_remove p w =
     (if p = [] then Inl FileNotFoundError
      else if is_dir w p then Inl IsADirectoryError
      else (case fs w p of
              None \<Rightarrow> Inl FileNotFoundError
            | Some _ \<Rightarrow> Inr (w\<lparr>fs := (fs w)(p := None)\<rparr>)))"

text \<open>An iterator at its end: every \<open>next\<close> raises \<open>StopIteration\<close>.\<close>

definition exhausted :: "'c reader" where
  "exhausted = sconst (Inl StopIteration)"

text \<open>\<open>next(df_iter)\<close>\<close>

definition next_chunk :: "'c reader \<Rightarrow> (exn + 'c frame) \<times> 'c reader" where
  "next_chunk it = (shd it, stl it)"

text \<open>\<open>df.c = pd.to_datetime(df.c)\<close>: reading the attribute raises when there is no such
  column; the conversion raises when one cell is malformed; a missing value stays missing.\<close>

fun set_field :: "string \<Rightarrow> 'c \<Rightarrow> 'c fields \<Rightarrow> 'c fields" where
  "set_field c v [] = []"
| "set_field c v ((k, x) # r) = (if k = c then (k, v) # set_field c v r else (k, x) # set_field c v r)"

definition cell_to_datetime :: "'c env \<Rightarrow> string \<Rightarrow> nat \<times> 'c fields \<Rightarrow> (nat \<times> 'c fields) option" where
  "cell_to_datetime env c r =
     (case map_of (snd r) c of
        None \<Rightarrow> Some r
      | Some v \<Rightarrow> (case to_dt env v of None \<Rightarrow> None | Some t \<Rightarrow> Some (fst r, set_field c t (snd r))))"

definition set_dtype :: "string \<Rightarrow> dtype \<Rightarrow> (string \<times> dtype) list \<Rightarrow> (string \<times> dtype) list" where
  "set_dtype c d cols = map (\<lambda>(k, t). if k = c then (k, d) else (k, t)) cols"

definition to_datetime_column :: "'c env \<Rightarrow> string \<Rightarrow> 'c frame \<Rightarrow> exn + 'c frame" where
  "to_datetime_column env c df =
     (if c \<notin> fst ` set (columns df) then Inl AttributeError
      else (case those (map (cell_to_datetime env c) (rows df)) of
              None \<Rightarrow> Inl DateParseError
            | Some rs \<Rightarrow> Inr (df\<lparr>columns := set_dtype c Datetime64 (columns df), rows := rs\<rparr>)))"

text \<open>Lines 60-61 and 77-78.\<close>

definition convert :: "'c env \<Rightarrow> 'c frame \<Rightarrow> exn + 'c frame" where
  "convert env df =
     (case to_datetime_column env ''tpep_pickup_datetime'' df of
        Inl e \<Rightarrow> Inl e
      | Inr df1 \<Rightarrow> to_datetime_column env ''tpep_dropoff_datetime'' df1)"

text \<open>\<open>df.head(n)\<close>\<close>

definition head :: "nat \<Rightarrow> 'c frame \<Rightarrow> 'c frame" where
  "head n df = df\<lparr>rows := take n (rows df)\<rparr>"

text \<open>\<open>df.to_sql(name, con, if_exists)\<close> with the other arguments at their defaults: the index
  is written as a column of its own, in front of the others (\<open>index=True\<close>), and the call is
  one transaction: it either raises and leaves the database as it was, or does all of its
  work.\<close>

definition index_label :: "'c frame \<Rightarrow> string" where
  "index_label df = (if ''index'' \<in> fst ` set (columns df) then ''level_0'' else ''index'')"

definition sql_columns :: "'c frame \<Rightarrow> (string \<times> sqltype) list" where
  "sql_columns df = (index_label df, BIGINT) # map (\<lambda>(k, t). (k, sql_type t)) (columns df)"

definition to_sql :: "'c env \<Rightarrow> 'c frame \<Rightarrow> string \<Rightarrow> engine \<Rightarrow> if_exists \<Rightarrow> 'c world \<Rightarrow> exn option \<times> 'c world" where
  "to_sql env df name con mode w =
     (let w1 = w\<lparr>sql_trace := sql_trace w @ [(mode, name, length (rows df))]\<rparr> in
      case sql_fault env (length (sql_trace w)) of
        Some e \<Rightarrow> (Some e, w1)
      | None \<Rightarrow>
          (case (mode, db w name) of
             (Append, Some t) \<Rightarrow> (None, w1\<lparr>db := (db w)(name \<mapsto> t\<lparr>trows := trows t @ rows df\<rparr>)\<rparr>)
           | _ \<Rightarrow> (None, w1\<lparr>db := (db w)(name \<mapsto> \<lparr>tcolumns = sql_columns df, trows = rows df\<rparr>)\<rparr>)))"

subsection \<open>\<open>download_file\<close>\<close>

text \<open>The body of the \<open>try\<close> (lines 17-23).\<close>

definition download_body :: "'c env \<Rightarrow> string \<Rightarrow> string \<Rightarrow> 'c world \<Rightarrow> exn option \<times> 'c world" where
  "download_body env url output_path w =
     (let w1 = info (Downloading url) w in
      case http_get env url of
        Inl e \<Rightarrow> (Some e, w1)
      | Inr response \<Rightarrow>
          (case raise_for_status response of
             Some e \<Rightarrow> (Some e, w1)
           | None \<Rightarrow>
               (case open_wb output_path w1 of
                  Inl e \<Rightarrow> (Some e, w1)
                | Inr w2 \<Rightarrow>
                    (let (chunks, broken) = iter_content response 8192;
                         w3 = foldl (write_chunk output_path) w2 chunks
                     in case broken of
                          Some e \<Rightarrow> (Some e, w3)
                        | None \<Rightarrow> (None, info (Downloaded output_path) w3)))))"

text \<open>The handler logs and raises again (lines 24-26).\<close>

definition download_file :: "'c env \<Rightarrow> string \<Rightarrow> string \<Rightarrow> 'c world \<Rightarrow> exn option \<times> 'c world" where
  "download_file env url output_path w =
     (case download_body env url output_path w of
        (Some e, w1) \<Rightarrow> (Some e, error (Failed_to_download e) w1)
      | (None, w1) \<Rightarrow> (None, w1))"

subsection \<open>\<open>main\<close>\<close>

record params =
  user :: string
  password :: string
  host :: string
  port :: string
  db_name :: string
  table_name :: string
  url :: string

text \<open>The \<open>while True\<close> loop (lines 72-87). A \<open>StopIteration\<close> raised by any statement of
  the loop body ends the loop normally; any other exception leaves it. The function is
  partial: on an iterator that never ends and never fails it does not return.\<close>

partial_function (option) load_rest ::
  "'c env \<Rightarrow> string \<Rightarrow> engine \<Rightarrow> 'c reader \<Rightarrow> 'c world \<Rightarrow> (exn option \<times> 'c world) option" where
  "load_rest env name con df_iter w =
     (case next_chunk df_iter of
        (Inl e, it) \<Rightarrow>
          if e = StopIteration then Some (None, info Finished_ingesting w) else Some (Some e, w)
      | (Inr df, it) \<Rightarrow>
          (case convert env df of
             Inl e \<Rightarrow>
               if e = StopIteration then Some (None, info Finished_ingesting w) else Some (Some e, w)
           | Inr df2 \<Rightarrow>
               (case to_sql env df2 name con Append w of
                  (Some e, w1) \<Rightarrow>
                    if e = StopIteration then Some (None, info Finished_ingesting w1)
                    else Some (Some e, w1)
                | (None, w1) \<Rightarrow> load_rest env name con it (info Inserted_another_chunk w1))))"

text \<open>The body of the last \<open>try\<close> (lines 56-87).\<close>

definition ingest ::
  "'c env \<Rightarrow> string \<Rightarrow> string \<Rightarrow> engine \<Rightarrow> 'c world \<Rightarrow> (exn option \<times> 'c world) option" where
  "ingest env csv_name name con w =
     (case (case fs w csv_name of
              Some (File bytes) \<Rightarrow> read_csv env bytes 100000
            | _ \<Rightarrow> Inl FileNotFoundError) of
        Inl e \<Rightarrow> Some (Some e, w)
      | Inr df_iter \<Rightarrow>
          (case next_chunk df_iter of
             (Inl e, it) \<Rightarrow> Some (Some e, w)
           | (Inr df, it) \<Rightarrow>
               (case convert env df of
                  Inl e \<Rightarrow> Some (Some e, w)
                | Inr df2 \<Rightarrow>
                    (case to_sql env (head 0 df2) name con Replace w of
                       (Some e, w1) \<Rightarrow> Some (Some e, w1)
                     | (None, w1) \<Rightarrow>
                         (case to_sql env df2 name con Append (info (Table_created name) w1) of
                            (Some e, w2) \<Rightarrow> Some (Some e, w2)
                          | (None, w2) \<Rightarrow> load_rest env name con it (info First_chunk_inserted w2))))))"

text \<open>The \<open>finally\<close> block (lines 91-95).\<close>

definition cleanup :: "string \<Rightarrow> 'c world \<Rightarrow> exn + 'c world" where
  "cleanup csv_name w =
     (if path_exists w csv_name then
        (case os_remove csv_name w of
           Inl e \<Rightarrow> Inl e
         | Inr w1 \<Rightarrow> Inr (info (Temporary_file_deleted csv_name) w1))
      else Inr w)"

definition connection_string :: "params \<Rightarrow> string" where
  "connection_string p =
     ''postgresql://'' @ user p @ '':'' @ password p @ ''@'' @ host p @ '':'' @ port p @ ''/'' @ db_name p"

text \<open>Line 38: \<open>csv_name = url.split("/")[-1]\<close>\<close>

definition csv_name :: "params \<Rightarrow> string" where
  "csv_name p = last (split_on CHR ''/'' (url p))"

text \<open>\<open>main\<close> returns \<open>Some (Inr w)\<close> when it returns normally and leaves the world \<open>w\<close>,
  \<open>Some (Inl e)\<close> when the exception \<open>e\<close> leaves it, and \<open>None\<close> when it does not return.\<close>

definition main :: "'c env \<Rightarrow> params \<Rightarrow> 'c world \<Rightarrow> (exn + 'c world) option" where
  "main env p w =
     (case download_file env (url p) (csv_name p) w of
        (Some e, w1) \<Rightarrow> Some (Inr (error Exiting_due_to_download_error w1))
      | (None, w1) \<Rightarrow>
          (case create_engine env (connection_string p) of
             Inl e \<Rightarrow> Some (Inr (error (Failed_to_connect e) w1))
           | Inr con \<Rightarrow>
               (case ingest env (csv_name p) (table_name p) con w1 of
                  None \<Rightarrow> None
                | Some (Some e, w2) \<Rightarrow> Some (cleanup (csv_name p) (error (Error_processing_data e) w2))
                | Some (None, w2) \<Rightarrow> Some (cleanup (csv_name p) w2))))"

subsection \<open>Notions used in the statements\<close>

text \<open>What the iterator of \<open>pd.read_csv(..., iterator=True, chunksize=n)\<close> yields on a file
  whose parsed contents are the frame \<open>df\<close>: batches with the columns of the frame and
  consecutive blocks of \<open>n\<close> of its rows. A file that has the header row and no data row
  gives one batch without rows, not an iterator that is exhausted at once.\<close>

definition chunked :: "nat \<Rightarrow> 'c frame \<Rightarrow> 'c frame list" where
  "chunked n df =
     (if rows df = [] then [df] else map (\<lambda>rs. df\<lparr>rows := rs\<rparr>) (chunks_of n (rows df)))"

text \<open>The batch \<open>item\<close> of the loop raises \<open>e\<close>, when its \<open>to_sql\<close> call is the \<open>n\<close>-th one:
  the read raises, or the conversion does, or the database does.\<close>

definition batch_fails :: "'c env \<Rightarrow> nat \<Rightarrow> exn + 'c frame \<Rightarrow> exn \<Rightarrow> bool" where
  "batch_fails env n item e =
     (case item of
        Inl x \<Rightarrow> x = e
      | Inr df \<Rightarrow> (case convert env df of Inl x \<Rightarrow> x = e | Inr df2 \<Rightarrow> sql_fault env n = Some e))"

text \<open>The same for the first batch, which makes two \<open>to_sql\<close> calls.\<close>

definition first_batch_fails :: "'c env \<Rightarrow> nat \<Rightarrow> exn + 'c frame \<Rightarrow> exn \<Rightarrow> bool" where
  "first_batch_fails env n item e =
     (case item of
        Inl x \<Rightarrow> x = e
      | Inr df \<Rightarrow>
          (case convert env df of
             Inl x \<Rightarrow> x = e
           | Inr df2 \<Rightarrow>
               sql_fault env n = Some e \<or> (sql_fault env n = None \<and> sql_fault env (n + 1) = Some e)))"

text \<open>The record \<open>r2\<close> is the record \<open>r\<close> with its two date-time fields converted: same
  index label, same field names, the two fields read by \<open>to_dt\<close> (a missing one stays
  missing), every other field as it was.\<close>

definition row_converted :: "'c env \<Rightarrow> nat \<times> 'c fields \<Rightarrow> nat \<times> 'c fields \<Rightarrow> bool" where
  "row_converted env r r2 \<longleftrightarrow>
     fst r2 = fst r \<and> map fst (snd r2) = map fst (snd r)
     \<and> (\<forall>c. map_of (snd r2) c =
           (if c = ''tpep_pickup_datetime'' \<or> c = ''tpep_dropoff_datetime''
            then (case map_of (snd r) c of None \<Rightarrow> None | Some v \<Rightarrow> to_dt env v)
            else map_of (snd r) c))"

text \<open>From \<open>w\<close> to \<open>w'\<close> the table \<open>name\<close>, if there is one, has kept its columns and their
  types, and every \<open>to_sql\<close> call made was an appending one.\<close>

definition schema_kept :: "string \<Rightarrow> 'c world \<Rightarrow> 'c world \<Rightarrow> bool" where
  "schema_kept name w w' \<longleftrightarrow>
     (\<forall>T. db w name = Some T \<longrightarrow> (\<exists>T'. db w' name = Some T' \<and> tcolumns T' = tcolumns T))
     \<and> (\<exists>cs. sql_trace w' = sql_trace w @ cs \<and> (\<forall>c\<in>set cs. fst c = Append))"

text \<open>The world after the table has been created from the batch \<open>d\<close> and the batches
  \<open>d # ds\<close> have been appended.\<close>

definition loaded :: "string \<Rightarrow> 'c frame \<Rightarrow> 'c frame list \<Rightarrow> 'c world \<Rightarrow> 'c world" where
  "loaded name d ds w =
     w\<lparr>sql_trace := sql_trace w @ (Replace, name, 0) # map (\<lambda>x. (Append, name, length (rows x))) (d # ds),
       db := (db w)(name \<mapsto> \<lparr>tcolumns = sql_columns d, trows = concat (map rows (d # ds))\<rparr>),
       log_records := log_records w @ (INFO, Table_created name) # (INFO, First_chunk_inserted)
          # replicate (length ds) (INFO, Inserted_another_chunk)\<rparr>"

subsection \<open>Sample inputs\<close>

text \<open>Concrete cells, frames, worlds and environments on which the theorems are
  instantiated.\<close>

datatype cell = Text string | Number int | Timestamp nat

fun sample_to_dt :: "cell \<Rightarrow> cell option" where
  "sample_to_dt (Text s) = (if s = ''2021-01-01 00:30:10'' then Some (Timestamp 1609461010) else None)"
| "sample_to_dt (Number n) = (if 0 \<le> n then Some (Timestamp (nat n)) else None)"
| "sample_to_dt (Timestamp t) = Some (Timestamp t)"

definition sample_columns :: "(string \<times> dtype) list" where
  "sample_columns =
     [(''VendorID'', Int64), (''tpep_pickup_datetime'', Object), (''tpep_dropoff_datetime'', Object),
      (''store_and_fwd_flag'', Object)]"

definition sample_fields :: "cell fields" where
  "sample_fields =
     [(''VendorID'', Number 1), (''tpep_pickup_datetime'', Text ''2021-01-01 00:30:10''),
      (''tpep_dropoff_datetime'', Text ''2021-01-01 00:30:10''), (''store_and_fwd_flag'', Text ''N'')]"

definition bad_fields :: "cell fields" where
  "bad_fields =
     [(''VendorID'', Number 2), (''tpep_pickup_datetime'', Text ''yesterday''),
      (''tpep_dropoff_datetime'', Text ''2021-01-01 00:30:10''), (''store_and_fwd_flag'', Text ''N'')]"

definition old_table :: "cell table" where
  "old_table = \<lparr>tcolumns = [(''id'', BIGINT)], trows = [(7, [(''id'', Number 7)])]\<rparr>"

definition world0 :: "cell world" where
  "world0 = \<lparr>fs = Map.empty, db = [''trips'' \<mapsto> old_table], log_records = [], sql_trace = []\<rparr>"

definition sample_params :: params where
  "sample_params =
     \<lparr>user = ''root'', password = ''root'', host = ''localhost'', port = ''5432'', db_name = ''ny_taxi'',
      table_name = ''trips'', url = ''https://example.org/data/trips.csv''\<rparr>"

definition env_ok :: "cell reader \<Rightarrow> cell env" where
  "env_ok it =
     \<lparr>http_get = (\<lambda>u. Inr \<lparr>status_code = 200, content = ''a,b'', broken_after = None\<rparr>),
      create_engine = (\<lambda>s. Inr (Engine s)),
      read_csv = (\<lambda>bytes n. Inr it),
      to_dt = sample_to_dt,
      sql_fault = (\<lambda>n. None)\<rparr>"

definition sample_frame :: "cell frame" where
  "sample_frame = \<lparr>columns = sample_columns, rows = [(0, sample_fields), (1, sample_fields)]\<rparr>"

definition converted_columns :: "(string \<times> dtype) list" where
  "converted_columns =
     [(''VendorID'', Int64), (''tpep_pickup_datetime'', Datetime64),
      (''tpep_dropoff_datetime'', Datetime64), (''store_and_fwd_flag'', Object)]"

definition converted_fields :: "cell fields" where
  "converted_fields =
     [(''VendorID'', Number 1), (''tpep_pickup_datetime'', Timestamp 1609461010),
      (''tpep_dropoff_datetime'', Timestamp 1609461010), (''store_and_fwd_flag'', Text ''N'')]"

definition converted_frame :: "cell frame" where
  "converted_frame = \<lparr>columns = converted_columns, rows = [(0, converted_fields), (1, converted_fields)]\<rparr>"

definition big_frame :: "cell frame" where
  "big_frame = \<lparr>columns = sample_columns, rows = map (\<lambda>i. (i, sample_fields)) [0..<250000]\<rparr>"

definition converted :: "cell frame \<Rightarrow> cell frame" where
  "converted df = \<lparr>columns = converted_columns, rows = map (\<lambda>r. (fst r, converted_fields)) (rows df)\<rparr>"

definition env_big :: "cell env" where
  "env_big = env_ok (map Inr (chunked 100000 big_frame) @- exhausted)"

definition env_one :: "cell env" where
  "env_one = env_ok (map Inr [sample_frame] @- exhausted)"

definition env_404 :: "cell env" where
  "env_404 = (env_ok exhausted)
     \<lparr>http_get := (\<lambda>u. Inr \<lparr>status_code = 404, content = ''Not Found'', broken_after = None\<rparr>)\<rparr>"

definition env_no_engine :: "cell env" where
  "env_no_engine = (env_ok exhausted)\<lparr>create_engine := (\<lambda>s. Inl ArgumentError)\<rparr>"

definition env_broken :: "cell env" where
  "env_broken = (env_ok exhausted)
     \<lparr>http_get := (\<lambda>u. Inr \<lparr>status_code = 200, content = ''a,b'', broken_after = Some 0\<rparr>)\<rparr>"

definition downloaded :: "cell world" where
  "downloaded = world0
     \<lparr>fs := [''trips.csv'' \<mapsto> File ''a,b''],
      log_records := [(INFO, Downloading (url sample_params)), (INFO, Downloaded ''trips.csv'')]\<rparr>"

definition bad_frame :: "cell frame" where
  "bad_frame = \<lparr>columns = sample_columns, rows = [(2, bad_fields)]\<rparr>"

definition env_bad_first :: "cell env" where
  "env_bad_first = env_ok (Inr bad_frame ## exhausted)"

definition env_bad_second :: "cell env" where
  "env_bad_second = env_ok (map Inr (sample_frame # []) @- Inr bad_frame ## exhausted)"



definition header_only :: "cell frame" where
  "header_only = \<lparr>columns = sample_columns, rows = []\<rparr>"

definition env_header :: "cell env" where
  "env_header = env_ok (map Inr (chunked 100000 header_only) @- exhausted)"

definition final_header :: "cell world" where
  "final_header = info (Temporary_file_deleted ''trips.csv'')
     ((info Finished_ingesting (loaded ''trips'' (converted header_only) [] downloaded))
        \<lparr>fs := (fs downloaded)(''trips.csv'' := None)\<rparr>)"

definition final_one :: "cell world" where
  "final_one = info (Temporary_file_deleted ''trips.csv'')
     ((info Finished_ingesting (loaded ''trips'' converted_frame [] downloaded))
        \<lparr>fs := (fs downloaded)(''trips.csv'' := None)\<rparr>)"

section \<open>Properties\<close>

lemma shd_exhausted [simp]: "shd exhausted = Inl StopIteration"
  by (simp add: exhausted_def)

lemma stl_exhausted [simp]: "stl exhausted = exhausted"
  by (simp add: exhausted_def)

subsection \<open>The download\<close>

lemma split_on_nonempty: "split_on sep s \<noteq> []"
  by (induction s) (auto split: list.splits)

lemma foldl_write_db:
  "db (foldl (write_chunk p) w cs) = db w \<and> sql_trace (foldl (write_chunk p) w cs) = sql_trace w"
  by (induction cs arbitrary: w) (auto simp: write_chunk_def split: option.splits node.splits)

lemma download_body_db:
  "download_body env u p w = (r, w') \<Longrightarrow> db w' = db w \<and> sql_trace w' = sql_trace w"
  by (auto simp: download_body_def Let_def info_def open_wb_def foldl_write_db
      split: sum.splits option.splits if_splits prod.splits)

lemma download_file_db:
  "download_file env u p w = (r, w') \<Longrightarrow> db w' = db w \<and> sql_trace w' = sql_trace w"
  by (auto simp: download_file_def error_def split: prod.splits option.splits dest: download_body_db)

lemma download_body_raises:
  "http_get env u = Inl e \<or> (\<exists>r. http_get env u = Inr r \<and> 400 \<le> status_code r \<and> status_code r < 600)
   \<Longrightarrow> fst (download_body env u p w) \<noteq> None"
  by (auto simp: download_body_def Let_def raise_for_status_def split: sum.splits)

lemma download_file_raises:
  "fst (download_body env u p w) \<noteq> None \<Longrightarrow> fst (download_file env u p w) \<noteq> None"
  by (auto simp: download_file_def split: prod.splits option.splits)

lemma main_download_fails:
  assumes "fst (download_file env (url p) (csv_name p) w) \<noteq> None"
  shows "\<exists>w'. main env p w = Some (Inr w') \<and> db w' = db w \<and> sql_trace w' = sql_trace w"
  using assms
  by (auto simp: main_def error_def split: prod.splits option.splits dest: download_file_db)

text \<open>
  Claim C5. When the request cannot be completed (\<open>requests.get\<close> raises) or the response
  has a status from 400 to 599, \<open>download_file\<close> raises, and \<open>main\<close> returns without a
  single database call: the tables are what they were and no \<open>to_sql\<close> call was made.
\<close>

theorem download_failure_leaves_database_untouched:
  assumes "http_get env (url p) = Inl e
     \<or> (\<exists>r. http_get env (url p) = Inr r \<and> 400 \<le> status_code r \<and> status_code r < 600)"
  shows "fst (download_file env (url p) (csv_name p) w) \<noteq> None
     \<and> (\<exists>w'. main env p w = Some (Inr w') \<and> db w' = db w \<and> sql_trace w' = sql_trace w)"
proof -
  have "fst (download_file env (url p) (csv_name p) w) \<noteq> None"
    using assms by (intro download_file_raises download_body_raises)
  then show ?thesis
    using main_download_fails by blast
qed

theorem download_failure_leaves_database_untouched_witness:
  "(\<exists>r. http_get env_404 (url sample_params) = Inr r \<and> 400 \<le> status_code r \<and> status_code r < 600)
   \<and> fst (download_file env_404 (url sample_params)
        (csv_name sample_params) world0) \<noteq> None
   \<and> (\<exists>w'. main env_404 sample_params world0 = Some (Inr w') \<and> db w' = db world0
        \<and> sql_trace w' = sql_trace world0)"
proof -
  have h: "\<exists>r. http_get env_404 (url sample_params) = Inr r \<and> 400 \<le> status_code r \<and> status_code r < 600"
    by (simp add: env_404_def env_ok_def)
  then show ?thesis
    using download_failure_leaves_database_untouched [of env_404 sample_params RequestException world0]
    by simp
qed

subsection \<open>What the loop and the load leave alone\<close>

text \<open>The loop may not return, so its properties are proved by induction on its definition:
  a relation that holds across each step of the loop holds across the whole loop.\<close>

lemma load_rest_rel:
  assumes "load_rest env name con it w = Some y"
    and rfl: "\<And>name w. R name w w"
    and trans: "\<And>name a b c. R name a b \<Longrightarrow> R name b c \<Longrightarrow> R name a c"
    and inf: "\<And>name m w. R name w (info m w)"
    and sql: "\<And>env name con df w r w1. to_sql env df name con Append w = (r, w1) \<Longrightarrow> R name w w1"
  shows "R name w (snd y)"
  using assms(1)
proof (induction rule: load_rest.raw_induct[rotated 1, consumes 1])
  case (1 f env name con it w y)
  show ?case
  proof (cases "shd it")
    case (Inl e)
    with 1(2) show ?thesis by (auto simp: next_chunk_def inf rfl split: if_splits)
  next
    case df: (Inr df)
    show ?thesis
    proof (cases "convert env df")
      case (Inl e)
      with 1(2) df show ?thesis by (auto simp: next_chunk_def inf rfl split: if_splits)
    next
      case df2: (Inr df2)
      obtain r w1 where ts: "to_sql env df2 name con Append w = (r, w1)" by force
      have w1: "R name w w1" using sql[OF ts] .
      show ?thesis
      proof (cases r)
        case None
        with 1(2) df df2 ts have "f env name con (stl it) (info Inserted_another_chunk w1) = Some y"
          by (simp add: next_chunk_def)
        from 1(1)[OF this] have "R name (info Inserted_another_chunk w1) (snd y)" .
        with w1 inf show ?thesis by (blast intro: trans)
      next
        case (Some e)
        have "R name w (info Finished_ingesting w1)"
          using w1 inf by (blast intro: trans)
        with Some 1(2) df df2 w1 show ?thesis
          by (auto simp: next_chunk_def ts split: if_splits)
      qed
    qed
  qed
qed

lemma to_sql_fs: "to_sql env df name con mode w = (r, w') \<Longrightarrow> fs w' = fs w"
  by (auto simp: to_sql_def Let_def split: option.splits if_exists.splits prod.splits)

lemma load_rest_fs: "load_rest env name con it w = Some (r, w') \<Longrightarrow> fs w' = fs w"
  by (drule load_rest_rel[where R = "\<lambda>n w w'. fs w' = fs w"])
    (auto simp: info_def dest: to_sql_fs)

lemma ingest_fs: "ingest env csv name con w = Some (r, w') \<Longrightarrow> fs w' = fs w"
  by (auto simp: ingest_def next_chunk_def info_def
      split: sum.splits prod.splits option.splits if_splits node.splits
      dest!: to_sql_fs load_rest_fs)

subsection \<open>The staging file\<close>

lemma foldl_write_file:
  "fs w p = Some (File b) \<Longrightarrow> \<exists>b'. fs (foldl (write_chunk p) w cs) p = Some (File b')"
  by (induction cs arbitrary: w b) (auto simp: write_chunk_def)

lemma foldl_write_other:
  "fs (foldl (write_chunk p) w cs) q = Some Dir \<longleftrightarrow> fs w q = Some Dir"
  by (induction cs arbitrary: w) (auto simp: write_chunk_def split: option.splits node.splits)

lemma download_body_file:
  assumes "download_body env u p w = (None, w1)"
  shows "p \<noteq> [] \<and> \<not> is_dir w1 p \<and> (\<exists>b. fs w1 p = Some (File b))"
proof -
  from assms obtain r where r: "http_get env u = Inr r"
    by (auto simp: download_body_def Let_def split: sum.splits)
  from assms r obtain w2 where w2: "open_wb p (info (Downloading u) w) = Inr w2"
    by (auto simp: download_body_def Let_def split: sum.splits option.splits)
  from assms r w2 have w1: "w1 = info (Downloaded p) (foldl (write_chunk p) w2 (fst (iter_content r 8192)))"
    by (auto simp: download_body_def Let_def split: sum.splits option.splits prod.splits)
  from w2 have p: "p \<noteq> []" "\<not> is_dir w2 p" "fs w2 p = Some (File [])"
    by (auto simp: open_wb_def is_dir_def info_def split: if_splits)
  from foldl_write_file[OF p(3)] obtain b' where
    "fs (foldl (write_chunk p) w2 (fst (iter_content r 8192))) p = Some (File b')" by blast
  with p w1 show ?thesis
    by (auto simp: info_def is_dir_def foldl_write_other)
qed

lemma download_file_file:
  assumes "download_file env u p w = (None, w1)"
  shows "p \<noteq> [] \<and> \<not> is_dir w1 p \<and> (\<exists>b. fs w1 p = Some (File b))"
  using assms download_body_file[of env u p w w1]
  by (auto simp: download_file_def split: prod.splits option.splits)

lemma cleanup_file:
  assumes "p \<noteq> []" "\<not> is_dir w p" "fs w p = Some (File b)"
  shows "cleanup p w = Inr (info (Temporary_file_deleted p) (w\<lparr>fs := (fs w)(p := None)\<rparr>))"
  using assms by (simp add: cleanup_def path_exists_def os_remove_def)

text \<open>Once the download and \<open>create_engine\<close> have succeeded and the load has returned, with
  an exception or without, the \<open>finally\<close> block finds the staging file and removes it.\<close>

lemma main_processing:
  assumes dl: "download_file env (url p) (csv_name p) w = (None, w1)"
    and ce: "create_engine env (connection_string p) = Inr con"
    and ing: "ingest env (csv_name p) (table_name p) con w1 = Some (r, w2)"
  shows "main env p w = Some (Inr (info (Temporary_file_deleted (csv_name p))
     ((case r of None \<Rightarrow> w2 | Some e \<Rightarrow> error (Error_processing_data e) w2)
        \<lparr>fs := (fs w2)(csv_name p := None)\<rparr>)))"
proof -
  let ?w3 = "case r of None \<Rightarrow> w2 | Some e \<Rightarrow> error (Error_processing_data e) w2"
  from download_file_file[OF dl] obtain b where
    f: "csv_name p \<noteq> []" "\<not> is_dir w1 (csv_name p)" "fs w1 (csv_name p) = Some (File b)"
    by blast
  have fs2: "fs w2 = fs w1" using ingest_fs[OF ing] .
  have fs3: "fs ?w3 = fs w1" using fs2 by (simp add: error_def split: option.splits)
  have "cleanup (csv_name p) ?w3 =
      Inr (info (Temporary_file_deleted (csv_name p)) (?w3\<lparr>fs := (fs ?w3)(csv_name p := None)\<rparr>))"
    using f fs3 by (intro cleanup_file[where b = b]) (simp_all add: is_dir_def)
  then show ?thesis
    using dl ce ing fs3 fs2 by (simp add: main_def split: option.splits)
qed

subsection \<open>Evaluation of the sample runs\<close>

lemma csv_name_sample: "csv_name sample_params = ''trips.csv''"
  by (simp add: csv_name_def sample_params_def)

lemma chunks_of_small: "length bytes \<le> n \<Longrightarrow> bytes \<noteq> [] \<Longrightarrow> 0 < n \<Longrightarrow> chunks_of n bytes = [bytes]"
  by (subst chunks_of.simps, subst chunks_of.simps) simp

lemma download_sample:
  "download_file (env_ok it) (url sample_params) ''trips.csv'' world0 = (None, downloaded)"
  by (simp add: download_file_def download_body_def env_ok_def raise_for_status_def open_wb_def
      is_dir_def world0_def info_def iter_content_def chunks_of_small write_chunk_def downloaded_def)

lemma download_sample_404:
  "download_file env_404 (url sample_params) ''trips.csv'' world0 =
     (Some HTTPError, error (Failed_to_download HTTPError) (info (Downloading (url sample_params)) world0))"
  by (simp add: download_file_def download_body_def env_404_def env_ok_def raise_for_status_def)

lemma download_sample_broken:
  "download_file env_broken (url sample_params) ''trips.csv'' world0 =
     (Some RequestException, error (Failed_to_download RequestException)
        ((info (Downloading (url sample_params)) world0)\<lparr>fs := [''trips.csv'' \<mapsto> File []]\<rparr>))"
  by (simp add: download_file_def download_body_def env_broken_def env_ok_def raise_for_status_def
      open_wb_def is_dir_def world0_def info_def iter_content_def chunks_of_small write_chunk_def)

lemma table_name_sample: "table_name sample_params = ''trips''"
  by (simp add: sample_params_def)

lemma ingest_sample_empty:
  "ingest (env_ok exhausted) ''trips.csv'' ''trips'' con downloaded
     = Some (Some StopIteration, downloaded)"
  by (simp add: ingest_def downloaded_def env_ok_def next_chunk_def)

lemma convert_sample: "convert (env_ok it) sample_frame = Inr converted_frame"
  by (simp add: convert_def to_datetime_column_def sample_frame_def sample_columns_def sample_fields_def
      cell_to_datetime_def env_ok_def set_dtype_def converted_frame_def converted_columns_def
      converted_fields_def)

subsection \<open>Failures and the exit status\<close>

lemma download_file_logs_failure:
  assumes "download_file env u c w = (Some e, w1)"
  shows "last (log_records w1) = (ERROR, Failed_to_download e)"
  using assms by (auto simp: download_file_def error_def split: prod.splits option.splits)

text \<open>
  Claim C6. No exception leaves \<open>main\<close>. When the download fails, \<open>download_file\<close> has
  logged the failure as an error, and \<open>main\<close> adds one more error record to the log and
  returns. When \<open>create_engine\<close> fails, \<open>main\<close> adds an error record to the log and
  returns. When the load raises, \<open>main\<close> adds an error record to the log, runs the cleanup,
  which adds its own record, and returns. The script ends after \<open>main\<close>, so the process
  exits with status 0 in all three cases, as it does after a successful run.
\<close>

theorem failure_paths_return_normally:
  "main env p w \<noteq> Some (Inl x)
   \<and> (download_file env (url p) (csv_name p) w = (Some e, w1) \<longrightarrow>
        last (log_records w1) = (ERROR, Failed_to_download e)
        \<and> (\<exists>w'. main env p w = Some (Inr w') \<and> w' = error Exiting_due_to_download_error w1
              \<and> log_records w' = log_records w1 @ [(ERROR, Exiting_due_to_download_error)]))
   \<and> (download_file env (url p) (csv_name p) w = (None, w1)
        \<and> create_engine env (connection_string p) = Inl e \<longrightarrow>
        (\<exists>w'. main env p w = Some (Inr w') \<and> w' = error (Failed_to_connect e) w1
              \<and> log_records w' = log_records w1 @ [(ERROR, Failed_to_connect e)]))
   \<and> (download_file env (url p) (csv_name p) w = (None, w1)
        \<and> create_engine env (connection_string p) = Inr con
        \<and> ingest env (csv_name p) (table_name p) con w1 = Some (Some e, w2) \<longrightarrow>
        (\<exists>w'. main env p w = Some (Inr w')
              \<and> w' = info (Temporary_file_deleted (csv_name p))
                    ((error (Error_processing_data e) w2)\<lparr>fs := (fs w2)(csv_name p := None)\<rparr>)
              \<and> log_records w' = log_records w2
                    @ [(ERROR, Error_processing_data e), (INFO, Temporary_file_deleted (csv_name p))]))"
proof (intro conjI impI)
  show "main env p w \<noteq> Some (Inl x)"
  proof (cases "download_file env (url p) (csv_name p) w")
    case (Pair r w1)
    show ?thesis
    proof (cases r)
      case (Some e)
      with Pair show ?thesis by (simp add: main_def)
    next
      case None
      show ?thesis
      proof (cases "create_engine env (connection_string p)")
        case (Inl e)
        with Pair None show ?thesis by (simp add: main_def)
      next
        case (Inr con)
        show ?thesis
        proof (cases "ingest env (csv_name p) (table_name p) con w1")
          case None
          with Pair \<open>r = None\<close> Inr show ?thesis by (simp add: main_def)
        next
          case (Some y)
          obtain r2 w2 where "y = (r2, w2)" by force
          with Some Pair \<open>r = None\<close> Inr main_processing[of env p w w1 con r2 w2]
          show ?thesis by simp
        qed
      qed
    qed
  qed
next
  assume "download_file env (url p) (csv_name p) w = (Some e, w1)"
  then show "last (log_records w1) = (ERROR, Failed_to_download e)"
    by (rule download_file_logs_failure)
next
  assume "download_file env (url p) (csv_name p) w = (Some e, w1)"
  then have "main env p w = Some (Inr (error Exiting_due_to_download_error w1))"
    by (simp add: main_def)
  then show "\<exists>w'. main env p w = Some (Inr w') \<and> w' = error Exiting_due_to_download_error w1
              \<and> log_records w' = log_records w1 @ [(ERROR, Exiting_due_to_download_error)]"
    by (simp add: error_def)
next
  assume "download_file env (url p) (csv_name p) w = (None, w1)
    \<and> create_engine env (connection_string p) = Inl e"
  then have "main env p w = Some (Inr (error (Failed_to_connect e) w1))"
    by (simp add: main_def)
  then show "\<exists>w'. main env p w = Some (Inr w') \<and> w' = error (Failed_to_connect e) w1
              \<and> log_records w' = log_records w1 @ [(ERROR, Failed_to_connect e)]"
    by (simp add: error_def)
next
  assume "download_file env (url p) (csv_name p) w = (None, w1)
        \<and> create_engine env (connection_string p) = Inr con
        \<and> ingest env (csv_name p) (table_name p) con w1 = Some (Some e, w2)"
  then have "main env p w = Some (Inr (info (Temporary_file_deleted (csv_name p))
          ((error (Error_processing_data e) w2)\<lparr>fs := (fs w2)(csv_name p := None)\<rparr>)))"
    using main_processing[of env p w w1 con "Some e" w2] by simp
  then show "\<exists>w'. main env p w = Some (Inr w')
              \<and> w' = info (Temporary_file_deleted (csv_name p))
                    ((error (Error_processing_data e) w2)\<lparr>fs := (fs w2)(csv_name p := None)\<rparr>)
              \<and> log_records w' = log_records w2
                    @ [(ERROR, Error_processing_data e), (INFO, Temporary_file_deleted (csv_name p))]"
    by (simp add: error_def info_def)
qed

theorem failure_paths_return_normally_witness:
  "download_file env_404 (url sample_params) (csv_name sample_params) world0 =
     (Some HTTPError, error (Failed_to_download HTTPError) (info (Downloading (url sample_params)) world0))
   \<and> (\<exists>w'. main env_404 sample_params world0 = Some (Inr w')
        \<and> log_records w' = [(INFO, Downloading (url sample_params)), (ERROR, Failed_to_download HTTPError),
             (ERROR, Exiting_due_to_download_error)])
   \<and> download_file env_no_engine (url sample_params) (csv_name sample_params) world0 = (None, downloaded)
   \<and> create_engine env_no_engine (connection_string sample_params) = Inl ArgumentError
   \<and> (\<exists>w'. main env_no_engine sample_params world0 = Some (Inr w')
        \<and> log_records w' = [(INFO, Downloading (url sample_params)), (INFO, Downloaded ''trips.csv''),
             (ERROR, Failed_to_connect ArgumentError)])
   \<and> download_file (env_ok exhausted) (url sample_params) (csv_name sample_params) world0
       = (None, downloaded)
   \<and> create_engine (env_ok exhausted) (connection_string sample_params)
       = Inr (Engine (connection_string sample_params))
   \<and> ingest (env_ok exhausted) (csv_name sample_params) (table_name sample_params)
        (Engine (connection_string sample_params)) downloaded = Some (Some StopIteration, downloaded)
   \<and> (\<exists>w'. main (env_ok exhausted) sample_params world0 = Some (Inr w')
        \<and> log_records w' = [(INFO, Downloading (url sample_params)), (INFO, Downloaded ''trips.csv''),
             (ERROR, Error_processing_data StopIteration), (INFO, Temporary_file_deleted ''trips.csv'')])"
proof -
  let ?w404 = "error (Failed_to_download HTTPError) (info (Downloading (url sample_params)) world0)"
  let ?con = "Engine (connection_string sample_params)"
  have a: "download_file env_404 (url sample_params) (csv_name sample_params) world0 = (Some HTTPError, ?w404)"
    by (simp add: csv_name_sample download_sample_404)
  have b: "download_file env_no_engine (url sample_params) (csv_name sample_params) world0 = (None, downloaded)"
    unfolding env_no_engine_def csv_name_sample
    using download_sample[of "exhausted"]
    by (simp add: download_file_def download_body_def env_ok_def)
  have c: "create_engine env_no_engine (connection_string sample_params) = Inl ArgumentError"
    by (simp add: env_no_engine_def)
  have d: "download_file (env_ok exhausted) (url sample_params) (csv_name sample_params) world0
       = (None, downloaded)"
    by (simp add: csv_name_sample download_sample)
  have e: "create_engine (env_ok exhausted) (connection_string sample_params) = Inr ?con"
    by (simp add: env_ok_def)
  have f: "ingest (env_ok exhausted) (csv_name sample_params) (table_name sample_params)
        ?con downloaded = Some (Some StopIteration, downloaded)"
    by (simp add: csv_name_sample ingest_sample_empty table_name_sample)
  have l404: "log_records ?w404 = [(INFO, Downloading (url sample_params)), (ERROR, Failed_to_download HTTPError)]"
    by (simp add: error_def info_def world0_def)
  have ld: "log_records downloaded = [(INFO, Downloading (url sample_params)), (INFO, Downloaded ''trips.csv'')]"
    by (simp add: downloaded_def)
  note t = failure_paths_return_normally
  from t[where env = env_404 and p = sample_params and w = world0 and e = HTTPError and ?w1.0 = ?w404,
      THEN conjunct2, THEN conjunct1, THEN mp, OF a]
  have "\<exists>w'. main env_404 sample_params world0 = Some (Inr w')
        \<and> log_records w' = log_records ?w404 @ [(ERROR, Exiting_due_to_download_error)]"
    by (elim conjE exE) (intro exI conjI, assumption+)
  then have r1: "\<exists>w'. main env_404 sample_params world0 = Some (Inr w')
        \<and> log_records w' = [(INFO, Downloading (url sample_params)), (ERROR, Failed_to_download HTTPError),
             (ERROR, Exiting_due_to_download_error)]"
    unfolding l404 by simp
  from t[where env = env_no_engine and p = sample_params and w = world0 and e = ArgumentError
        and ?w1.0 = downloaded,
      THEN conjunct2, THEN conjunct2, THEN conjunct1, THEN mp, OF conjI[OF b c]]
  have "\<exists>w'. main env_no_engine sample_params world0 = Some (Inr w')
        \<and> log_records w' = log_records downloaded @ [(ERROR, Failed_to_connect ArgumentError)]"
    by (elim conjE exE) (intro exI conjI, assumption+)
  then have r2: "\<exists>w'. main env_no_engine sample_params world0 = Some (Inr w')
        \<and> log_records w' = [(INFO, Downloading (url sample_params)), (INFO, Downloaded ''trips.csv''),
             (ERROR, Failed_to_connect ArgumentError)]"
    unfolding ld by simp
  from t[where env = "env_ok exhausted" and p = sample_params and w = world0 and e = StopIteration
        and ?w1.0 = downloaded and con = ?con and ?w2.0 = downloaded,
      THEN conjunct2, THEN conjunct2, THEN conjunct2, THEN mp, OF conjI[OF d conjI[OF e f]]]
  have "\<exists>w'. main (env_ok exhausted) sample_params world0 = Some (Inr w')
        \<and> log_records w' = log_records downloaded
            @ [(ERROR, Error_processing_data StopIteration), (INFO, Temporary_file_deleted (csv_name sample_params))]"
    by (elim conjE exE) (intro exI conjI, assumption+)
  then have r3: "\<exists>w'. main (env_ok exhausted) sample_params world0 = Some (Inr w')
        \<and> log_records w' = [(INFO, Downloading (url sample_params)), (INFO, Downloaded ''trips.csv''),
             (ERROR, Error_processing_data StopIteration), (INFO, Temporary_file_deleted ''trips.csv'')]"
    unfolding ld csv_name_sample by simp
  show ?thesis
    by (intro conjI a r1 b c r2 d e f r3)
qed

subsection \<open>The cleanup is not reached on every path\<close>

text \<open>
  Claim C2 says that the staging file is deleted on every path. The \<open>finally\<close> block that
  deletes it belongs to the last \<open>try\<close> only, and the two \<open>return\<close> statements of lines 45
  and 52 come before it. So the file stays on disk when \<open>create_engine\<close> raises after a
  complete download, and the part already written stays on disk when the connection breaks
  in the middle of the download.
\<close>

theorem staging_file_left_behind:
  "(\<exists>w'. main env_no_engine sample_params world0 = Some (Inr w')
      \<and> fs w' (csv_name sample_params) = Some (File ''a,b''))
   \<and> (\<exists>w'. main env_broken sample_params world0 = Some (Inr w')
      \<and> fs w' (csv_name sample_params) = Some (File []))"
proof
  have "download_file env_no_engine (url sample_params) ''trips.csv'' world0 = (None, downloaded)"
    unfolding env_no_engine_def
    using download_sample[of "exhausted"]
    by (simp add: download_file_def download_body_def env_ok_def)
  then show "\<exists>w'. main env_no_engine sample_params world0 = Some (Inr w')
      \<and> fs w' (csv_name sample_params) = Some (File ''a,b'')"
    by (simp add: main_def csv_name_sample env_no_engine_def error_def downloaded_def)
next
  show "\<exists>w'. main env_broken sample_params world0 = Some (Inr w')
      \<and> fs w' (csv_name sample_params) = Some (File [])"
    by (simp add: main_def csv_name_sample download_sample_broken error_def info_def)
qed

subsection \<open>The load, batch by batch\<close>

lemma to_sql_append_ok:
  assumes "sql_fault env (length (sql_trace w)) = None" "db w name = Some T"
  shows "to_sql env df name con Append w =
     (None, w\<lparr>sql_trace := sql_trace w @ [(Append, name, length (rows df))],
              db := (db w)(name \<mapsto> T\<lparr>trows := trows T @ rows df\<rparr>)\<rparr>)"
  using assms by (simp add: to_sql_def)

lemma to_sql_replace_ok:
  assumes "sql_fault env (length (sql_trace w)) = None"
  shows "to_sql env df name con Replace w =
     (None, w\<lparr>sql_trace := sql_trace w @ [(Replace, name, length (rows df))],
              db := (db w)(name \<mapsto> \<lparr>tcolumns = sql_columns df, trows = rows df\<rparr>)\<rparr>)"
  using assms by (simp add: to_sql_def)

lemma to_sql_fault:
  assumes "sql_fault env (length (sql_trace w)) = Some e"
  shows "to_sql env df name con mode w =
     (Some e, w\<lparr>sql_trace := sql_trace w @ [(mode, name, length (rows df))]\<rparr>)"
  using assms by (simp add: to_sql_def)

lemma load_rest_end:
  "load_rest env name con exhausted w = Some (None, info Finished_ingesting w)"
  by (subst load_rest.simps) (simp add: next_chunk_def)

lemma load_rest_prefix:
  assumes "map (convert env) dfs = map Inr dfs2"
    and "\<forall>i<length dfs. sql_fault env (length (sql_trace w) + i) = None"
    and "db w name = Some T"
  shows "load_rest env name con (map Inr dfs @- rest) w =
     load_rest env name con rest
       (w\<lparr>sql_trace := sql_trace w @ map (\<lambda>d. (Append, name, length (rows d))) dfs2,
          db := (db w)(name \<mapsto> T\<lparr>trows := trows T @ concat (map rows dfs2)\<rparr>),
          log_records := log_records w @ replicate (length dfs2) (INFO, Inserted_another_chunk)\<rparr>)"
  using assms
proof (induction dfs arbitrary: dfs2 w T)
  case Nil
  then have "dfs2 = []" "(db w)(name \<mapsto> T) = db w" by (auto simp: map_upd_triv)
  then show ?case by simp
next
  case (Cons d dfs)
  from Cons.prems(1) obtain d2 ds2 where d2: "dfs2 = d2 # ds2" "convert env d = Inr d2"
    "map (convert env) dfs = map Inr ds2"
    by (cases dfs2) auto
  from Cons.prems(2) have f0: "sql_fault env (length (sql_trace w)) = None" by force
  let ?w1 = "w\<lparr>sql_trace := sql_trace w @ [(Append, name, length (rows d2))],
              db := (db w)(name \<mapsto> T\<lparr>trows := trows T @ rows d2\<rparr>)\<rparr>"
  let ?w2 = "info Inserted_another_chunk ?w1"
  have step: "load_rest env name con (map Inr (d # dfs) @- rest) w = load_rest env name con (map Inr dfs @- rest) ?w2"
    by (subst load_rest.simps) (simp add: next_chunk_def d2 to_sql_append_ok[OF f0 Cons.prems(3)])
  have f: "\<forall>i<length dfs. sql_fault env (length (sql_trace ?w2) + i) = None"
    using Cons.prems(2) by (auto simp: info_def)
  have T: "db ?w2 name = Some (T\<lparr>trows := trows T @ rows d2\<rparr>)"
    by (simp add: info_def)
  show ?case
    unfolding step Cons.IH[OF d2(3) f T]
    by (rule arg_cong[where f = "load_rest env name con rest"])
      (simp add: d2 info_def fun_upd_def cong: if_cong)
qed


lemma load_rest_bad:
  assumes "batch_fails env (length (sql_trace w)) bad e"
  shows "\<exists>w'. load_rest env name con (bad ## rest) w =
        Some (if e = StopIteration then (None, info Finished_ingesting w') else (Some e, w'))
     \<and> db w' = db w \<and> fs w' = fs w \<and> log_records w' = log_records w
     \<and> (sql_trace w' = sql_trace w \<or> (\<exists>k. sql_trace w' = sql_trace w @ [(Append, name, k)]))"
proof (cases bad)
  case (Inl x)
  with assms have "load_rest env name con (bad ## rest) w =
        Some (if e = StopIteration then (None, info Finished_ingesting w) else (Some e, w))"
    by (subst load_rest.simps) (simp add: next_chunk_def batch_fails_def)
  then show ?thesis by blast
next
  case df: (Inr df)
  show ?thesis
  proof (cases "convert env df")
    case (Inl x)
    with assms df have "load_rest env name con (bad ## rest) w =
        Some (if e = StopIteration then (None, info Finished_ingesting w) else (Some e, w))"
      by (subst load_rest.simps) (simp add: next_chunk_def batch_fails_def)
    then show ?thesis by blast
  next
    case (Inr df2)
    with assms df have f: "sql_fault env (length (sql_trace w)) = Some e"
      by (simp add: batch_fails_def)
    let ?w' = "w\<lparr>sql_trace := sql_trace w @ [(Append, name, length (rows df2))]\<rparr>"
    have "load_rest env name con (bad ## rest) w =
        Some (if e = StopIteration then (None, info Finished_ingesting ?w') else (Some e, ?w'))"
      by (subst load_rest.simps) (simp add: next_chunk_def df Inr to_sql_fault[OF f])
    moreover have "db ?w' = db w \<and> fs ?w' = fs w \<and> log_records ?w' = log_records w
     \<and> (sql_trace ?w' = sql_trace w \<or> (\<exists>k. sql_trace ?w' = sql_trace w @ [(Append, name, k)]))"
      by simp
    ultimately show ?thesis by blast
  qed
qed

lemma sql_columns_head: "sql_columns (head n df) = sql_columns df"
  by (simp add: sql_columns_def head_def index_label_def)

lemma ingest_prefix:
  assumes fl: "fs w csv = Some (File bytes)"
    and rd: "read_csv env bytes 100000 = Inr (map Inr (d # ds) @- rest)"
    and conv: "map (convert env) (d # ds) = map Inr (d2 # ds2)"
    and nf: "\<forall>i<length ds + 2. sql_fault env (length (sql_trace w) + i) = None"
  shows "ingest env csv name con w = load_rest env name con rest (loaded name d2 ds2 w)"
proof -
  from conv have d2: "convert env d = Inr d2" and ds2: "map (convert env) ds = map Inr ds2"
    by auto
  from nf have f0: "sql_fault env (length (sql_trace w)) = None"
    and f1: "sql_fault env (Suc (length (sql_trace w))) = None"
    by (force, force dest: spec[where x = 1])
  let ?wc = "w\<lparr>sql_trace := sql_trace w @ [(Replace, name, 0)],
              db := (db w)(name \<mapsto> \<lparr>tcolumns = sql_columns d2, trows = []\<rparr>)\<rparr>"
  have c: "to_sql env (head 0 d2) name con Replace w = (None, ?wc)"
    using to_sql_replace_ok[OF f0, of "head 0 d2" name con]
    by (simp add: sql_columns_head) (simp add: head_def)
  let ?wt = "info (Table_created name) ?wc"
  let ?wa = "?wt\<lparr>sql_trace := sql_trace ?wt @ [(Append, name, length (rows d2))],
              db := (db ?wt)(name \<mapsto> \<lparr>tcolumns = sql_columns d2, trows = []\<rparr>\<lparr>trows := [] @ rows d2\<rparr>)\<rparr>"
  have a: "to_sql env d2 name con Append ?wt = (None, ?wa)"
    using to_sql_append_ok[of env ?wt name "\<lparr>tcolumns = sql_columns d2, trows = []\<rparr>" d2 con] f1
    by (simp add: info_def)
  let ?w1 = "info First_chunk_inserted ?wa"
  have i: "ingest env csv name con w = load_rest env name con (map Inr ds @- rest) ?w1"
    by (simp add: ingest_def fl rd next_chunk_def d2 c a del: to_sql_def)
  have nf': "\<forall>i<length ds. sql_fault env (length (sql_trace ?w1) + i) = None"
  proof (intro allI impI)
    fix i assume "i < length ds"
    then have "i + 2 < length ds + 2" by simp
    with nf have "sql_fault env (length (sql_trace w) + (i + 2)) = None" by blast
    then show "sql_fault env (length (sql_trace ?w1) + i) = None" by (simp add: info_def)
  qed
  have T: "db ?w1 name = Some \<lparr>tcolumns = sql_columns d2, trows = rows d2\<rparr>"
    by (simp add: info_def)
  show ?thesis
    unfolding i load_rest_prefix[OF ds2 nf' T]
    by (rule arg_cong[where f = "load_rest env name con rest"])
      (simp add: loaded_def info_def fun_upd_def cong: if_cong)
qed


subsection \<open>Termination of the loop\<close>

lemma load_rest_finite:
  "\<exists>y. load_rest env name con (items @- exhausted) w = Some y"
proof (induction items arbitrary: w)
  case Nil
  show ?case unfolding shift.simps using load_rest_end by blast
next
  case (Cons item items)
  show ?case
  proof (cases item)
    case (Inl e)
    then show ?thesis by (subst load_rest.simps) (simp add: next_chunk_def)
  next
    case df: (Inr df)
    show ?thesis
    proof (cases "convert env df")
      case (Inl e)
      with df show ?thesis by (subst load_rest.simps) (simp add: next_chunk_def)
    next
      case (Inr df2)
      obtain r w1 where ts: "to_sql env df2 name con Append w = (r, w1)" by force
      show ?thesis
      proof (cases r)
        case None
        from Cons.IH[of "info Inserted_another_chunk w1"] df Inr ts None
        show ?thesis by (subst load_rest.simps) (simp add: next_chunk_def)
      next
        case (Some e)
        with df Inr ts show ?thesis by (subst load_rest.simps) (simp add: next_chunk_def)
      qed
    qed
  qed
qed

lemma to_sql_no_fault:
  assumes "sql_fault env (length (sql_trace w)) = None"
  shows "\<exists>w1. to_sql env df name con mode w = (None, w1) \<and> log_records w1 = log_records w
     \<and> sql_trace w1 = sql_trace w @ [(mode, name, length (rows df))]"
  using assms by (auto simp: to_sql_def Let_def split: if_exists.splits option.splits)

lemma load_rest_all_ok:
  assumes "map (convert env) dfs = map Inr dfs2"
    and "\<forall>i<length dfs. sql_fault env (length (sql_trace w) + i) = None"
  shows "\<exists>w'. load_rest env name con (map Inr dfs @- exhausted) w = Some (None, w')
     \<and> log_records w' = log_records w @ replicate (length dfs) (INFO, Inserted_another_chunk)
          @ [(INFO, Finished_ingesting)]"
  using assms
proof (induction dfs arbitrary: dfs2 w)
  case Nil
  have "load_rest env name con ([] @- exhausted) w = Some (None, info Finished_ingesting w)"
    unfolding shift.simps by (rule load_rest_end)
  then show ?case by (simp add: info_def)
next
  case (Cons d dfs)
  from Cons.prems(1) obtain d2 ds2 where d2: "dfs2 = d2 # ds2" "convert env d = Inr d2"
    "map (convert env) dfs = map Inr ds2"
    by (cases dfs2) auto
  from Cons.prems(2) have f0: "sql_fault env (length (sql_trace w)) = None" by force
  from to_sql_no_fault[OF f0, of d2 name con Append] obtain w1 where
    w1: "to_sql env d2 name con Append w = (None, w1)" "log_records w1 = log_records w"
      "sql_trace w1 = sql_trace w @ [(Append, name, length (rows d2))]" by blast
  let ?w2 = "info Inserted_another_chunk w1"
  have step: "load_rest env name con (map Inr (d # dfs) @- exhausted) w
      = load_rest env name con (map Inr dfs @- exhausted) ?w2"
    by (subst load_rest.simps) (simp add: next_chunk_def d2 w1)
  have f: "\<forall>i<length dfs. sql_fault env (length (sql_trace ?w2) + i) = None"
  proof (intro allI impI)
    fix i assume "i < length dfs"
    then have "i + 1 < length (d # dfs)" by simp
    with Cons.prems(2) have "sql_fault env (length (sql_trace w) + (i + 1)) = None" by blast
    then show "sql_fault env (length (sql_trace ?w2) + i) = None" by (simp add: info_def w1)
  qed
  from Cons.IH[OF d2(3) f] show ?case
    unfolding step by (simp add: info_def w1 replicate_append_same)
qed

text \<open>
  Claim C9. On an iterator that is exhausted after finitely many reads, whatever the reads
  give, the loop returns. When the iterator is exhausted, the loop logs the end of the
  ingestion and returns without an exception; so it does after batches that were all
  converted and written.
\<close>

theorem loop_terminates_on_finite_input:
  "(\<exists>y. load_rest env name con (items @- exhausted) w = Some y)
   \<and> load_rest env name con (exhausted) w = Some (None, info Finished_ingesting w)
   \<and> (map (convert env) dfs = map Inr dfs2
        \<and> (\<forall>i<length dfs. sql_fault env (length (sql_trace w) + i) = None) \<longrightarrow>
      (\<exists>w'. load_rest env name con (map Inr dfs @- exhausted) w = Some (None, w')
        \<and> log_records w' = log_records w @ replicate (length dfs) (INFO, Inserted_another_chunk)
             @ [(INFO, Finished_ingesting)]))"
  using load_rest_finite load_rest_end load_rest_all_ok by blast


theorem loop_terminates_on_finite_input_witness:
  "map (convert (env_ok exhausted)) [sample_frame] = map Inr [converted_frame]
   \<and> sql_fault (env_ok exhausted) (length (sql_trace downloaded) + 0) = None
   \<and> (\<exists>w'. load_rest (env_ok exhausted) ''trips'' (Engine ''e'') (map Inr [sample_frame] @- exhausted) downloaded
          = Some (None, w')
        \<and> log_records w' = log_records downloaded @ replicate (length [sample_frame]) (INFO, Inserted_another_chunk)
             @ [(INFO, Finished_ingesting)])"
proof -
  have a: "map (convert (env_ok exhausted)) [sample_frame] = map Inr [converted_frame]"
    by (simp add: convert_sample)
  have b: "\<forall>i<length [sample_frame]. sql_fault (env_ok exhausted) (length (sql_trace downloaded) + i) = None"
    by (simp add: env_ok_def)
  have c: "sql_fault (env_ok exhausted) (length (sql_trace downloaded) + 0) = None"
    by (simp add: env_ok_def)
  from a b loop_terminates_on_finite_input[of "env_ok exhausted" "''trips''" "Engine ''e''" "[]" downloaded
      "[sample_frame]" "[converted_frame]"]
  have "\<exists>w'. load_rest (env_ok exhausted) ''trips'' (Engine ''e'') (map Inr [sample_frame] @- exhausted) downloaded
          = Some (None, w')
        \<and> log_records w' = log_records downloaded @ replicate (length [sample_frame]) (INFO, Inserted_another_chunk)
             @ [(INFO, Finished_ingesting)]"
    by blast
  with a c show ?thesis by blast
qed


subsection \<open>A complete load\<close>

lemma ceil_div:
  assumes "0 < n"
  shows "(L + n - 1) div n = (L::nat) div n + (if L mod n = 0 then 0 else 1)"
proof -
  have "L + n - 1 = (L mod n + n - 1) + (L div n) * n"
    using assms by (simp add: algebra_simps)
  then have "(L + n - 1) div n = ((L mod n + n - 1) + (L div n) * n) div n"
    by (rule arg_cong)
  also have "\<dots> = L div n + (L mod n + n - 1) div n"
    by (subst div_mult_self1) (use assms in simp_all)
  finally have a: "(L + n - 1) div n = (L mod n + n - 1) div n + L div n"
    by simp
  have b: "(L mod n + n - 1) div n = (if L mod n = 0 then 0 else 1)"
  proof (cases "L mod n = 0")
    case True
    with assms show ?thesis by simp
  next
    case False
    then have "L mod n + n - 1 = (L mod n - 1) + 1 * n" by simp
    then have "(L mod n + n - 1) div n = ((L mod n - 1) + 1 * n) div n"
      by (rule arg_cong)
    also have "\<dots> = 1 + (L mod n - 1) div n"
      by (subst div_mult_self1) (use assms in simp_all)
    finally have "(L mod n + n - 1) div n = (L mod n - 1) div n + 1" by simp
    moreover have "L mod n - 1 < n" using assms by (simp add: less_imp_diff_less)
    ultimately show ?thesis using False by simp
  qed
  show ?thesis unfolding a b by simp
qed


lemma concat_chunks_of: "0 < n \<Longrightarrow> concat (chunks_of n xs) = xs"
proof (induction n xs rule: chunks_of.induct)
  case (1 n xs)
  show ?case
  proof (cases "xs = []")
    case True
    then show ?thesis by (subst chunks_of.simps) simp
  next
    case False
    with 1 show ?thesis by (subst chunks_of.simps) simp
  qed
qed

lemma map_length_chunks_of:
  "0 < n \<Longrightarrow> map length (chunks_of n xs) =
     replicate (length xs div n) n @ (if length xs mod n = 0 then [] else [length xs mod n])"
proof (induction n xs rule: chunks_of.induct)
  case (1 n xs)
  show ?case
  proof (cases "xs = []")
    case True
    then show ?thesis by (subst chunks_of.simps) simp
  next
    case False
    note ne = this
    show ?thesis
    proof (cases "length xs < n")
      case True
      with ne have "chunks_of n xs = [xs]"
        by (subst chunks_of.simps, subst chunks_of.simps) simp
      with True ne show ?thesis by simp
    next
      case False
      then have ge: "n \<le> length xs" by simp
      have c: "chunks_of n xs = take n xs # chunks_of n (drop n xs)"
        using ne 1(2) by (subst chunks_of.simps) simp
      have ih: "map length (chunks_of n (drop n xs)) =
          replicate (length (drop n xs) div n) n
            @ (if length (drop n xs) mod n = 0 then [] else [length (drop n xs) mod n])"
        using 1 ne by simp
      have d: "length xs div n = Suc ((length xs - n) div n)"
        using ge 1(2) by (simp add: le_div_geq)
      have m: "length xs mod n = (length xs - n) mod n"
        using ge by (simp add: le_mod_geq)
      show ?thesis
        unfolding c using ge by (simp add: ih d m min_def)
    qed
  qed
qed

lemma length_chunks_of: "0 < n \<Longrightarrow> length (chunks_of n xs) = (length xs + n - 1) div n"
proof -
  assume n: "0 < n"
  have "length (chunks_of n xs) = length (map length (chunks_of n xs))" by simp
  also have "\<dots> = length xs div n + (if length xs mod n = 0 then 0 else 1)"
    unfolding map_length_chunks_of[OF n] by simp
  finally show ?thesis by (simp only: ceil_div[OF n])
qed

lemma chunks_of_Nil_iff: "0 < n \<Longrightarrow> chunks_of n xs = [] \<longleftrightarrow> xs = []"
  by (subst chunks_of.simps) simp

lemma those_eq_Some: "those xs = Some ys \<longleftrightarrow> xs = map Some ys"
  by (induction xs arbitrary: ys) (auto split: option.splits)

lemma to_datetime_column_Inr:
  assumes "to_datetime_column env c df = Inr df2"
  shows "columns df2 = set_dtype c Datetime64 (columns df)
     \<and> map (cell_to_datetime env c) (rows df) = map Some (rows df2)"
  using assms
  by (auto simp: to_datetime_column_def those_eq_Some split: if_splits option.splits)

lemma convert_length:
  assumes "convert env df = Inr df2"
  shows "length (rows df2) = length (rows df)"
proof -
  from assms obtain df1 where 1: "to_datetime_column env ''tpep_pickup_datetime'' df = Inr df1"
    and 2: "to_datetime_column env ''tpep_dropoff_datetime'' df1 = Inr df2"
    by (auto simp: convert_def split: sum.splits)
  from to_datetime_column_Inr[OF 1] have "length (rows df1) = length (rows df)"
    by (metis length_map)
  moreover from to_datetime_column_Inr[OF 2] have "length (rows df2) = length (rows df1)"
    by (metis length_map)
  ultimately show ?thesis by simp
qed

lemma converted_lengths:
  "map (convert env) dfs = map Inr dfs2 \<Longrightarrow> map (\<lambda>d. length (rows d)) dfs2 = map (\<lambda>d. length (rows d)) dfs"
proof (induction dfs arbitrary: dfs2)
  case Nil
  then show ?case by simp
next
  case (Cons d dfs)
  then obtain d2 ds2 where "dfs2 = d2 # ds2" "convert env d = Inr d2" "map (convert env) dfs = map Inr ds2"
    by (cases dfs2) auto
  with Cons.IH[of ds2] show ?case by (simp add: convert_length)
qed

lemma main_success:
  assumes dl: "download_file env (url p) (csv_name p) w = (None, w1)"
    and ce: "create_engine env (connection_string p) = Inr con"
    and fl: "fs w1 (csv_name p) = Some (File bytes)"
    and rd: "read_csv env bytes 100000 = Inr (map Inr (d # ds) @- exhausted)"
    and conv: "map (convert env) (d # ds) = map Inr (d2 # ds2)"
    and nf: "\<forall>i<length ds + 2. sql_fault env (length (sql_trace w) + i) = None"
  shows "main env p w = Some (Inr (info (Temporary_file_deleted (csv_name p))
     ((info Finished_ingesting (loaded (table_name p) d2 ds2 w1))\<lparr>fs := (fs w1)(csv_name p := None)\<rparr>)))"
proof -
  have tr: "sql_trace w1 = sql_trace w" using download_file_db[OF dl] by simp
  have "ingest env (csv_name p) (table_name p) con w1 =
      load_rest env (table_name p) con exhausted (loaded (table_name p) d2 ds2 w1)"
    using nf by (intro ingest_prefix[OF fl rd conv]) (simp add: tr)
  then have i: "ingest env (csv_name p) (table_name p) con w1 =
      Some (None, info Finished_ingesting (loaded (table_name p) d2 ds2 w1))"
    by (simp add: load_rest_end)
  from main_processing[OF dl ce i] show ?thesis
    by (simp add: info_def loaded_def)
qed


lemma sum_list_lengths: "sum_list (map length xss) = length (concat xss)"
  by (induction xss) auto

lemma chunked_rows:
  "rows df \<noteq> [] \<Longrightarrow> map (\<lambda>d. length (rows d)) (chunked n df) = map length (chunks_of n (rows df))"
  by (simp add: chunked_def comp_def)

lemma chunked_total: "0 < n \<Longrightarrow> sum_list (map (\<lambda>d. length (rows d)) (chunked n df)) = length (rows df)"
proof (cases "rows df = []")
  case True
  then show ?thesis by (simp add: chunked_def)
next
  case False
  assume "0 < n"
  then show ?thesis
    unfolding chunked_rows[OF False] sum_list_lengths by (simp add: concat_chunks_of)
qed

lemma length_chunked:
  assumes "0 < n"
  shows "length (chunked n df) = max 1 ((length (rows df) + n - 1) div n)"
proof (cases "rows df = []")
  case True
  with assms show ?thesis by (simp add: chunked_def)
next
  case False
  then have "chunks_of n (rows df) \<noteq> []" using assms by (simp add: chunks_of_Nil_iff)
  then have ge: "1 \<le> length (chunks_of n (rows df))" by (cases "chunks_of n (rows df)") auto
  have l: "length (chunks_of n (rows df)) = (length (rows df) + n - 1) div n"
    by (rule length_chunks_of[OF assms])
  have "length (chunked n df) = length (chunks_of n (rows df))"
    using False by (simp add: chunked_def)
  also have "\<dots> = max 1 (length (chunks_of n (rows df)))" using ge by (simp add: max_def)
  also have "\<dots> = max 1 ((length (rows df) + n - 1) div n)" by (simp only: l)
  finally show ?thesis .
qed

text \<open>
  Claim C1, as amended. The file holds the frame \<open>df\<close> and is read in batches of 100000
  rows; the download and \<open>create_engine\<close> succeed, every conversion succeeds and the
  database raises in no call. Then \<open>main\<close> returns, no error is logged, the table holds as
  many rows as \<open>df\<close>, and the run has made one \<open>to_sql\<close> call that creates the table and
  one appending call for each batch. The batches are \<open>\<lceil>N / 100000\<rceil>\<close> in number, but one
  when the file has no data rows: its one batch is appended with 0 rows. For 250000 rows
  the batches have 100000, 100000 and 50000 rows.
\<close>

theorem all_rows_loaded_in_batches:
  assumes dl: "download_file env (url p) (csv_name p) w = (None, w1)"
    and ce: "create_engine env (connection_string p) = Inr con"
    and fl: "fs w1 (csv_name p) = Some (File bytes)"
    and rd: "read_csv env bytes 100000 = Inr (map Inr (chunked 100000 df) @- exhausted)"
    and conv: "map (convert env) (chunked 100000 df) = map Inr dfs2"
    and nf: "\<forall>n. sql_fault env n = None"
  shows "\<exists>w' T. main env p w = Some (Inr w') \<and> db w' (table_name p) = Some T
     \<and> length (trows T) = length (rows df)
     \<and> sql_trace w' = sql_trace w @ (Replace, table_name p, 0)
          # map (\<lambda>d. (Append, table_name p, length (rows d))) (chunked 100000 df)
     \<and> length (chunked 100000 df) = max 1 ((length (rows df) + 99999) div 100000)
     \<and> (length (rows df) = 250000 \<longrightarrow>
          map (\<lambda>d. length (rows d)) (chunked 100000 df) = [100000, 100000, 50000])
     \<and> (rows df = [] \<longrightarrow> map (\<lambda>d. length (rows d)) (chunked 100000 df) = [0])
     \<and> log_records w' = log_records w1 @ (INFO, Table_created (table_name p)) # (INFO, First_chunk_inserted)
          # replicate (length (chunked 100000 df) - 1) (INFO, Inserted_another_chunk)
          @ [(INFO, Finished_ingesting), (INFO, Temporary_file_deleted (csv_name p))]"
proof -
  let ?name = "table_name p"
  have cnt: "length (chunked 100000 df) = max 1 ((length (rows df) + 99999) div 100000)"
    using length_chunked[of 100000 df] by simp
  then have ne: "chunked 100000 df \<noteq> []" by auto
  then obtain d ds where c: "chunked 100000 df = d # ds" by (cases "chunked 100000 df") auto
  with conv obtain d2 ds2 where c2: "dfs2 = d2 # ds2" by (cases dfs2) auto
  have nf': "\<forall>i<length ds + 2. sql_fault env (length (sql_trace w) + i) = None"
    using nf by simp
  let ?w' = "info (Temporary_file_deleted (csv_name p))
     ((info Finished_ingesting (loaded ?name d2 ds2 w1))\<lparr>fs := (fs w1)(csv_name p := None)\<rparr>)"
  have m: "main env p w = Some (Inr ?w')"
    using main_success[OF dl ce fl rd[unfolded c] conv[unfolded c c2] nf'] .
  let ?T = "\<lparr>tcolumns = sql_columns d2, trows = concat (map rows (d2 # ds2))\<rparr>"
  have T: "db ?w' ?name = Some ?T"
    by (simp add: info_def loaded_def)
  have lens: "map (\<lambda>d. length (rows d)) dfs2 = map (\<lambda>d. length (rows d)) (chunked 100000 df)"
    using converted_lengths[OF conv] .
  have "length (trows ?T) = sum_list (map length (map rows dfs2))"
    unfolding sum_list_lengths by (simp add: c2)
  also have "\<dots> = sum_list (map (\<lambda>d. length (rows d)) (chunked 100000 df))"
    using lens by (simp add: comp_def)
  also have "\<dots> = length (rows df)"
    by (simp add: chunked_total)
  finally have n: "length (trows ?T) = length (rows df)" .
  have lens': "map (\<lambda>d. (Append, ?name, length (rows d))) dfs2
      = map (\<lambda>d. (Append, ?name, length (rows d))) (chunked 100000 df)"
  proof -
    have "map (\<lambda>d. (Append, ?name, length (rows d))) dfs2
        = map (\<lambda>k. (Append, ?name, k)) (map (\<lambda>d. length (rows d)) dfs2)"
      by (simp add: comp_def)
    also have "\<dots> = map (\<lambda>k. (Append, ?name, k)) (map (\<lambda>d. length (rows d)) (chunked 100000 df))"
      by (simp only: lens)
    finally show ?thesis by (simp add: comp_def)
  qed
  have tr: "sql_trace ?w' = sql_trace w @ (Replace, ?name, 0)
          # map (\<lambda>d. (Append, ?name, length (rows d))) (chunked 100000 df)"
    using download_file_db[OF dl] lens'
    by (simp add: info_def loaded_def c2 del: list.map)
  have sc: "length (rows df) = 250000 \<longrightarrow>
          map (\<lambda>d. length (rows d)) (chunked 100000 df) = [100000, 100000, 50000]"
  proof
    assume l: "length (rows df) = 250000"
    then have r: "rows df \<noteq> []" by auto
    from l have "map length (chunks_of 100000 (rows df)) = replicate 2 100000 @ [50000]"
      by (simp add: map_length_chunks_of)
    then show "map (\<lambda>d. length (rows d)) (chunked 100000 df) = [100000, 100000, 50000]"
      unfolding chunked_rows[OF r] by (simp add: numeral_2_eq_2)
  qed
  have z: "rows df = [] \<longrightarrow> map (\<lambda>d. length (rows d)) (chunked 100000 df) = [0]"
    by (simp add: chunked_def)
  have len2: "length ds2 = length (chunked 100000 df) - 1"
    using conv c c2 by (metis length_map length_Cons diff_Suc_1)
  have lg: "log_records ?w' = log_records w1 @ (INFO, Table_created ?name) # (INFO, First_chunk_inserted)
          # replicate (length (chunked 100000 df) - 1) (INFO, Inserted_another_chunk)
          @ [(INFO, Finished_ingesting), (INFO, Temporary_file_deleted (csv_name p))]"
    by (simp add: info_def loaded_def len2)
  show ?thesis
    by (rule exI[of _ ?w'], rule exI[of _ ?T]) (intro conjI m T n tr cnt sc z lg)
qed

lemma to_datetime_column_ok:
  assumes "c \<in> fst ` set (columns df)"
    and "map (cell_to_datetime env c) (rows df) = map Some rs"
  shows "to_datetime_column env c df = Inr (df\<lparr>columns := set_dtype c Datetime64 (columns df), rows := rs\<rparr>)"
  using assms(1) by (simp add: to_datetime_column_def those_eq_Some[THEN iffD2, OF assms(2)])

lemma convert_uniform:
  assumes "\<forall>r\<in>set rs. snd r = sample_fields"
  shows "convert (env_ok it) \<lparr>columns = sample_columns, rows = rs\<rparr>
     = Inr (converted \<lparr>columns = sample_columns, rows = rs\<rparr>)"
proof -
  let ?df = "\<lparr>columns = sample_columns, rows = rs\<rparr> :: cell frame"
  let ?p = "map (\<lambda>r. (fst r, [(''VendorID'', Number 1), (''tpep_pickup_datetime'', Timestamp 1609461010),
      (''tpep_dropoff_datetime'', Text ''2021-01-01 00:30:10''), (''store_and_fwd_flag'', Text ''N'')])) rs"
  let ?df1 = "?df\<lparr>columns := set_dtype ''tpep_pickup_datetime'' Datetime64 (columns ?df), rows := ?p\<rparr>"
  let ?q = "map (\<lambda>r. (fst r, converted_fields)) rs"
  have 1: "map (cell_to_datetime (env_ok it) ''tpep_pickup_datetime'') (rows ?df) = map Some ?p"
    using assms by (auto simp: cell_to_datetime_def sample_fields_def env_ok_def)
  have 2: "map (cell_to_datetime (env_ok it) ''tpep_dropoff_datetime'') (rows ?df1) = map Some ?q"
    by (auto simp: cell_to_datetime_def env_ok_def converted_fields_def)
  have a: "to_datetime_column (env_ok it) ''tpep_pickup_datetime'' ?df = Inr ?df1"
    by (rule to_datetime_column_ok[OF _ 1]) (simp add: sample_columns_def)
  have b: "to_datetime_column (env_ok it) ''tpep_dropoff_datetime'' ?df1
      = Inr (?df1\<lparr>columns := set_dtype ''tpep_dropoff_datetime'' Datetime64 (columns ?df1), rows := ?q\<rparr>)"
    by (rule to_datetime_column_ok[OF _ 2]) (simp add: sample_columns_def set_dtype_def)
  have c: "?df1\<lparr>columns := set_dtype ''tpep_dropoff_datetime'' Datetime64 (columns ?df1), rows := ?q\<rparr>
      = converted ?df"
    by (simp add: converted_def sample_columns_def set_dtype_def converted_columns_def)
  show ?thesis
    unfolding convert_def a sum.case b c ..
qed

lemma set_chunks_of: "0 < n \<Longrightarrow> c \<in> set (chunks_of n xs) \<Longrightarrow> set c \<subseteq> set xs"
  using concat_chunks_of[of n xs] by (metis Sup_upper image_eqI set_concat)

lemma length_big: "length (rows big_frame) = 250000"
  by (simp add: big_frame_def del: upt_rec_numeral)

lemma convert_big:
  "map (convert env_big) (chunked 100000 big_frame) = map Inr (map converted (chunked 100000 big_frame))"
proof -
  have ne: "rows big_frame \<noteq> []" using length_big by auto
  have "convert env_big c = Inr (converted c)" if "c \<in> set (chunked 100000 big_frame)" for c
  proof -
    from that ne obtain rs where rs: "rs \<in> set (chunks_of 100000 (rows big_frame))"
      "c = \<lparr>columns = sample_columns, rows = rs\<rparr>"
      by (auto simp: chunked_def big_frame_def simp del: upt_rec_numeral)
    from set_chunks_of[OF _ rs(1)] have "\<forall>r\<in>set rs. snd r = sample_fields"
      by (auto simp: big_frame_def simp del: upt_rec_numeral)
    from convert_uniform[OF this] rs(2) show ?thesis
      by (simp add: env_big_def)
  qed
  then show ?thesis by simp
qed

theorem all_rows_loaded_in_batches_witness:
  "download_file env_big (url sample_params) (csv_name sample_params) world0 = (None, downloaded)
   \<and> create_engine env_big (connection_string sample_params) = Inr (Engine (connection_string sample_params))
   \<and> fs downloaded (csv_name sample_params) = Some (File ''a,b'')
   \<and> read_csv env_big ''a,b'' 100000 = Inr (map Inr (chunked 100000 big_frame) @- exhausted)
   \<and> map (convert env_big) (chunked 100000 big_frame) = map Inr (map converted (chunked 100000 big_frame))
   \<and> (\<forall>n. sql_fault env_big n = None)
   \<and> length (rows big_frame) = 250000
   \<and> (\<exists>w' T. main env_big sample_params world0 = Some (Inr w')
        \<and> db w' (table_name sample_params) = Some T \<and> length (trows T) = 250000
        \<and> sql_trace w' = [(Replace, table_name sample_params, 0), (Append, table_name sample_params, 100000),
             (Append, table_name sample_params, 100000), (Append, table_name sample_params, 50000)])"
proof -
  let ?con = "Engine (connection_string sample_params)"
  have dl: "download_file env_big (url sample_params) (csv_name sample_params) world0 = (None, downloaded)"
    by (simp add: csv_name_sample download_sample env_big_def)
  have ce: "create_engine env_big (connection_string sample_params) = Inr ?con"
    by (simp add: env_big_def env_ok_def)
  have fl: "fs downloaded (csv_name sample_params) = Some (File ''a,b'')"
    by (simp add: csv_name_sample downloaded_def)
  have rd: "read_csv env_big ''a,b'' 100000 = Inr (map Inr (chunked 100000 big_frame) @- exhausted)"
    by (simp add: env_big_def env_ok_def)
  note conv = convert_big
  have nf: "\<forall>n. sql_fault env_big n = None"
    by (simp add: env_big_def env_ok_def)
  from all_rows_loaded_in_batches[OF dl ce fl rd conv nf]
  have "\<exists>w' T. main env_big sample_params world0 = Some (Inr w')
        \<and> db w' (table_name sample_params) = Some T \<and> length (trows T) = 250000
        \<and> sql_trace w' = [(Replace, table_name sample_params, 0), (Append, table_name sample_params, 100000),
             (Append, table_name sample_params, 100000), (Append, table_name sample_params, 50000)]"
  proof (elim exE conjE)
    fix w' T
    assume t: "main env_big sample_params world0 = Some (Inr w')"
      "db w' (table_name sample_params) = Some T" "length (trows T) = length (rows big_frame)"
      "sql_trace w' = sql_trace world0 @ (Replace, table_name sample_params, 0)
          # map (\<lambda>d. (Append, table_name sample_params, length (rows d))) (chunked 100000 big_frame)"
      "length (rows big_frame) = 250000 \<longrightarrow>
          map (\<lambda>d. length (rows d)) (chunked 100000 big_frame) = [100000, 100000, 50000]"
    from t(5) length_big
    have sz: "map (\<lambda>d. length (rows d)) (chunked 100000 big_frame) = [100000, 100000, 50000]" by blast
    have "map (\<lambda>d. (Append, table_name sample_params, length (rows d))) (chunked 100000 big_frame)
        = map (\<lambda>k. (Append, table_name sample_params, k)) (map (\<lambda>d. length (rows d)) (chunked 100000 big_frame))"
      by (simp add: comp_def)
    then have tr: "sql_trace w' = [(Replace, table_name sample_params, 0), (Append, table_name sample_params, 100000),
             (Append, table_name sample_params, 100000), (Append, table_name sample_params, 50000)]"
      unfolding t(4) sz by (simp add: world0_def)
    have n: "length (trows T) = 250000" using t(3) length_big by simp
    show ?thesis
      by (rule exI[of _ w'], rule exI[of _ T]) (intro conjI t(1) t(2) n tr)
  qed
  with dl ce fl rd conv nf length_big show ?thesis by (intro conjI)
qed

lemma convert_header: "convert (env_ok it) header_only = Inr (converted header_only)"
  unfolding header_only_def by (rule convert_uniform) simp

lemma main_header: "main env_header sample_params world0 = Some (Inr final_header)"
proof -
  have c: "chunked 100000 header_only = header_only # []"
    by (simp add: chunked_def header_only_def)
  have h: "download_file env_header (url sample_params) (csv_name sample_params) world0 = (None, downloaded)"
    "create_engine env_header (connection_string sample_params) = Inr (Engine (connection_string sample_params))"
    "fs downloaded (csv_name sample_params) = Some (File ''a,b'')"
    "read_csv env_header ''a,b'' 100000 = Inr (map Inr (header_only # []) @- exhausted)"
    "map (convert env_header) (header_only # []) = map Inr (converted header_only # [])"
    "\<forall>i<length ([] :: cell frame list) + 2. sql_fault env_header (length (sql_trace world0) + i) = None"
    by (simp_all add: csv_name_sample download_sample env_header_def convert_header downloaded_def c)
      (simp_all add: env_ok_def)
  from main_success[OF h] show ?thesis
    by (simp only: final_header_def csv_name_sample table_name_sample)
qed

lemma sql_trace_final_header:
  "sql_trace final_header = [(Replace, ''trips'', 0), (Append, ''trips'', 0)]"
  by (simp add: final_header_def info_def loaded_def downloaded_def world0_def converted_def header_only_def)

text \<open>
  Claim C1 as stated gives \<open>\<lceil>N / 100000\<rceil>\<close> appending calls for every \<open>N\<close>. On a file with
  the header row and no data rows, \<open>N\<close> is 0 and so is \<open>\<lceil>N / 100000\<rceil>\<close>, but the run makes one
  appending call, of 0 rows.
\<close>

theorem header_only_file_makes_one_append:
  "rows header_only = []
   \<and> read_csv env_header ''a,b'' 100000 = Inr (map Inr (chunked 100000 header_only) @- exhausted)
   \<and> main env_header sample_params world0 = Some (Inr final_header)
   \<and> sql_trace final_header = [(Replace, ''trips'', 0), (Append, ''trips'', 0)]
   \<and> (length (rows header_only) + 99999) div 100000 = 0
   \<and> tl (sql_trace final_header) = [(Append, ''trips'', 0)]
   \<and> length (tl (sql_trace final_header)) \<noteq> (length (rows header_only) + 99999) div 100000"
proof -
  have a: "rows header_only = []" by (simp add: header_only_def)
  have b: "read_csv env_header ''a,b'' 100000 = Inr (map Inr (chunked 100000 header_only) @- exhausted)"
    by (simp add: env_header_def env_ok_def)
  have c: "(length (rows header_only) + 99999) div 100000 = 0" by (simp add: a)
  have e: "tl (sql_trace final_header) = [(Append, ''trips'', 0)]"
    by (simp add: sql_trace_final_header)
  have d: "length (tl (sql_trace final_header)) \<noteq> (length (rows header_only) + 99999) div 100000"
    unfolding c e by simp
  show ?thesis
    by (intro conjI a b main_header sql_trace_final_header c e d)
qed

subsection \<open>What the conversion changes\<close>

lemma map_of_set_field:
  "map_of (set_field c v r) k =
     (if k = c then (case map_of r c of None \<Rightarrow> None | Some x \<Rightarrow> Some v) else map_of r k)"
  by (induction r) auto

lemma map_fst_set_field: "map fst (set_field c v r) = map fst r"
  by (induction r) auto

lemma cell_to_datetime_Some:
  assumes "cell_to_datetime env c r = Some r2"
  shows "fst r2 = fst r \<and> map fst (snd r2) = map fst (snd r)
     \<and> (\<forall>k. map_of (snd r2) k =
          (if k = c then (case map_of (snd r) c of None \<Rightarrow> None | Some v \<Rightarrow> to_dt env v)
           else map_of (snd r) k))"
  using assms
  by (auto simp: cell_to_datetime_def map_of_set_field map_fst_set_field split: option.splits)

lemma map_Some_all2: "map f xs = map Some ys \<Longrightarrow> list_all2 (\<lambda>x y. f x = Some y) xs ys"
  by (induction xs arbitrary: ys) auto

lemma convert_rows:
  assumes "convert env df = Inr df2"
  shows "columns df2 = set_dtype ''tpep_dropoff_datetime'' Datetime64
            (set_dtype ''tpep_pickup_datetime'' Datetime64 (columns df))
     \<and> list_all2 (row_converted env) (rows df) (rows df2)"
proof -
  from assms obtain df1 where 1: "to_datetime_column env ''tpep_pickup_datetime'' df = Inr df1"
    and 2: "to_datetime_column env ''tpep_dropoff_datetime'' df1 = Inr df2"
    by (auto simp: convert_def split: sum.splits)
  note a = to_datetime_column_Inr[OF 1] and b = to_datetime_column_Inr[OF 2]
  have r1: "list_all2 (\<lambda>r r1. cell_to_datetime env ''tpep_pickup_datetime'' r = Some r1) (rows df) (rows df1)"
    using a by (intro map_Some_all2) simp
  have r2: "list_all2 (\<lambda>r1 r2. cell_to_datetime env ''tpep_dropoff_datetime'' r1 = Some r2) (rows df1) (rows df2)"
    using b by (intro map_Some_all2) simp
  have "row_converted env r r2"
    if "cell_to_datetime env ''tpep_pickup_datetime'' r = Some r1"
      and "cell_to_datetime env ''tpep_dropoff_datetime'' r1 = Some r2" for r r1 r2
    using cell_to_datetime_Some[OF that(1)] cell_to_datetime_Some[OF that(2)]
    by (auto simp: row_converted_def)
  then have "list_all2 (row_converted env) (rows df) (rows df2)"
    using r1 r2 by (rule list_all2_trans)
  with a b show ?thesis by simp
qed

lemma converted_all2:
  "map (convert env) dfs = map Inr dfs2 \<Longrightarrow> list_all2 (\<lambda>a b. convert env a = Inr b) dfs dfs2"
  by (induction dfs arbitrary: dfs2) auto

text \<open>
  Claim C8. In a run that loads the batches \<open>d # ds\<close>, the table holds the rows of the
  converted batches, in order. Each converted batch has the columns of the batch read, the
  two columns \<open>tpep_pickup_datetime\<close> and \<open>tpep_dropoff_datetime\<close> now of type date-time,
  and its records are the records read with these two fields converted by \<open>to_datetime\<close>
  and every other field unchanged.
\<close>

theorem only_datetime_fields_are_converted:
  assumes dl: "download_file env (url p) (csv_name p) w = (None, w1)"
    and ce: "create_engine env (connection_string p) = Inr con"
    and fl: "fs w1 (csv_name p) = Some (File bytes)"
    and rd: "read_csv env bytes 100000 = Inr (map Inr (d # ds) @- exhausted)"
    and conv: "map (convert env) (d # ds) = map Inr (d2 # ds2)"
    and nf: "\<forall>i<length ds + 2. sql_fault env (length (sql_trace w) + i) = None"
  shows "\<exists>w' T. main env p w = Some (Inr w') \<and> db w' (table_name p) = Some T
     \<and> trows T = concat (map rows (d2 # ds2))
     \<and> list_all2 (\<lambda>a b. columns b = set_dtype ''tpep_dropoff_datetime'' Datetime64
                             (set_dtype ''tpep_pickup_datetime'' Datetime64 (columns a))
                        \<and> list_all2 (row_converted env) (rows a) (rows b)) (d # ds) (d2 # ds2)"
proof -
  let ?w' = "info (Temporary_file_deleted (csv_name p))
     ((info Finished_ingesting (loaded (table_name p) d2 ds2 w1))\<lparr>fs := (fs w1)(csv_name p := None)\<rparr>)"
  let ?T = "\<lparr>tcolumns = sql_columns d2, trows = concat (map rows (d2 # ds2))\<rparr>"
  have m: "main env p w = Some (Inr ?w')"
    using main_success[OF dl ce fl rd conv nf] .
  have T: "db ?w' (table_name p) = Some ?T"
    by (simp add: info_def loaded_def)
  have r: "trows ?T = concat (map rows (d2 # ds2))" by simp
  have "list_all2 (\<lambda>a b. convert env a = Inr b) (d # ds) (d2 # ds2)"
    using conv by (rule converted_all2)
  then have c: "list_all2 (\<lambda>a b. columns b = set_dtype ''tpep_dropoff_datetime'' Datetime64
                             (set_dtype ''tpep_pickup_datetime'' Datetime64 (columns a))
                        \<and> list_all2 (row_converted env) (rows a) (rows b)) (d # ds) (d2 # ds2)"
    by (rule list_all2_mono) (rule convert_rows)
  show ?thesis
    by (rule exI[of _ ?w'], rule exI[of _ ?T]) (intro conjI m T r c)
qed

lemma env_one_hyps:
  "download_file env_one (url sample_params) (csv_name sample_params) world0 = (None, downloaded)"
  "create_engine env_one (connection_string sample_params) = Inr (Engine (connection_string sample_params))"
  "fs downloaded (csv_name sample_params) = Some (File ''a,b'')"
  "read_csv env_one ''a,b'' 100000 = Inr (map Inr (sample_frame # []) @- exhausted)"
  "map (convert env_one) (sample_frame # []) = map Inr (converted_frame # [])"
  "\<forall>i<length ([] :: cell frame list) + 2. sql_fault env_one (length (sql_trace world0) + i) = None"
  by (simp_all add: csv_name_sample download_sample env_one_def convert_sample downloaded_def)
    (simp_all add: env_ok_def)

theorem only_datetime_fields_are_converted_witness:
  "download_file env_one (url sample_params) (csv_name sample_params) world0 = (None, downloaded)
   \<and> create_engine env_one (connection_string sample_params) = Inr (Engine (connection_string sample_params))
   \<and> fs downloaded (csv_name sample_params) = Some (File ''a,b'')
   \<and> read_csv env_one ''a,b'' 100000 = Inr (map Inr (sample_frame # []) @- exhausted)
   \<and> map (convert env_one) (sample_frame # []) = map Inr (converted_frame # [])
   \<and> sql_fault env_one (length (sql_trace world0) + 0) = None
   \<and> sql_fault env_one (length (sql_trace world0) + 1) = None
   \<and> (\<exists>w' T. main env_one sample_params world0 = Some (Inr w') \<and> db w' (table_name sample_params) = Some T
     \<and> trows T = concat (map rows (converted_frame # []))
     \<and> list_all2 (\<lambda>a b. columns b = set_dtype ''tpep_dropoff_datetime'' Datetime64
                             (set_dtype ''tpep_pickup_datetime'' Datetime64 (columns a))
                        \<and> list_all2 (row_converted env_one) (rows a) (rows b))
          (sample_frame # []) (converted_frame # []))"
proof -
  have f: "sql_fault env_one (length (sql_trace world0) + 0) = None"
    "sql_fault env_one (length (sql_trace world0) + 1) = None"
    by (simp_all add: env_one_def env_ok_def)
  from env_one_hyps(1-5) f only_datetime_fields_are_converted[OF env_one_hyps]
  show ?thesis by (intro conjI)
qed


subsection \<open>The columns of the table\<close>

lemma schema_kept_refl: "schema_kept name w w"
  by (simp add: schema_kept_def)

lemma schema_kept_trans:
  assumes "schema_kept name a b" and "schema_kept name b c"
  shows "schema_kept name a c"
proof -
  from assms obtain cs ds where t: "sql_trace b = sql_trace a @ cs" "\<forall>x\<in>set cs. fst x = Append"
    "sql_trace c = sql_trace b @ ds" "\<forall>x\<in>set ds. fst x = Append"
    unfolding schema_kept_def by blast
  then have "sql_trace c = sql_trace a @ (cs @ ds)" "\<forall>x\<in>set (cs @ ds). fst x = Append"
    by auto
  then have 1: "\<exists>es. sql_trace c = sql_trace a @ es \<and> (\<forall>x\<in>set es. fst x = Append)"
    by blast
  have 2: "\<exists>T'. db c name = Some T' \<and> tcolumns T' = tcolumns T" if "db a name = Some T" for T
  proof -
    from assms(1) that obtain T1 where "db b name = Some T1" "tcolumns T1 = tcolumns T"
      unfolding schema_kept_def by blast
    with assms(2) show ?thesis unfolding schema_kept_def by force
  qed
  from 1 2 show ?thesis unfolding schema_kept_def by blast
qed

lemma schema_kept_info: "schema_kept name w (info m w)"
  by (simp add: schema_kept_def info_def)

lemma schema_kept_to_sql:
  "to_sql env df name con Append w = (r, w1) \<Longrightarrow> schema_kept name w w1"
  by (auto simp: to_sql_def Let_def schema_kept_def split: option.splits)

lemma load_rest_schema_kept:
  assumes "load_rest env name con it w = Some (r, w')"
  shows "schema_kept name w w'"
proof -
  have "schema_kept name w (snd (r, w'))"
    by (rule load_rest_rel[OF assms])
      (rule schema_kept_refl, erule schema_kept_trans, assumption, rule schema_kept_info,
        erule schema_kept_to_sql)
  then show ?thesis by simp
qed

lemma fst_set_dtype: "fst ` set (set_dtype c t cols) = fst ` set cols"
  by (force simp: set_dtype_def split: if_splits)

lemma index_label_convert:
  assumes "convert env d = Inr d2"
  shows "index_label d2 = index_label d"
  using convert_rows[OF assms] by (simp add: index_label_def fst_set_dtype)

lemma ingest_after_create:
  assumes fl: "fs w csv = Some (File bytes)"
    and rd: "read_csv env bytes 100000 = Inr (Inr d ## it)"
    and conv: "convert env d = Inr d2"
    and f0: "sql_fault env (length (sql_trace w)) = None"
    and ing: "ingest env csv name con w = Some (r, w')"
  shows "\<exists>T cs. db w' name = Some T \<and> tcolumns T = sql_columns d2
     \<and> sql_trace w' = sql_trace w @ (Replace, name, 0) # cs \<and> (\<forall>c\<in>set cs. fst c = Append)"
proof -
  let ?wc = "w\<lparr>sql_trace := sql_trace w @ [(Replace, name, 0)],
              db := (db w)(name \<mapsto> \<lparr>tcolumns = sql_columns d2, trows = []\<rparr>)\<rparr>"
  have c: "to_sql env (head 0 d2) name con Replace w = (None, ?wc)"
    using to_sql_replace_ok[OF f0, of "head 0 d2" name con]
    by (simp add: sql_columns_head) (simp add: head_def)
  let ?wt = "info (Table_created name) ?wc"
  obtain ra wa where a: "to_sql env d2 name con Append ?wt = (ra, wa)" by force
  have k1: "schema_kept name ?wt wa" using schema_kept_to_sql[OF a] .
  have i: "ingest env csv name con w =
      (case ra of Some e \<Rightarrow> Some (Some e, wa)
       | None \<Rightarrow> load_rest env name con it (info First_chunk_inserted wa))"
    by (simp add: ingest_def fl rd next_chunk_def conv c a del: to_sql_def split: option.splits)
  have "schema_kept name ?wt w'"
  proof (cases ra)
    case None
    with i ing have "load_rest env name con it (info First_chunk_inserted wa) = Some (r, w')" by simp
    from load_rest_schema_kept[OF this] schema_kept_info k1 show ?thesis
      by (blast intro: schema_kept_trans)
  next
    case (Some e)
    with i ing k1 show ?thesis by simp
  qed
  then obtain T cs where "db w' name = Some T" "tcolumns T = sql_columns d2"
    "sql_trace w' = sql_trace ?wt @ cs" "\<forall>c\<in>set cs. fst c = Append"
    by (auto simp: schema_kept_def info_def)
  then show ?thesis by (auto simp: info_def)
qed

lemma main_one: "main env_one sample_params world0 = Some (Inr final_one)"
  using main_success[OF env_one_hyps]
  by (simp only: final_one_def csv_name_sample table_name_sample)


lemma final_one_table:
  "db final_one ''trips'' = Some \<lparr>tcolumns = sql_columns converted_frame, trows = rows converted_frame\<rparr>"
  by (simp add: final_one_def info_def loaded_def)

lemma sql_columns_converted_frame:
  "sql_columns converted_frame =
     [(''index'', BIGINT), (''VendorID'', BIGINT), (''tpep_pickup_datetime'', TIMESTAMP),
      (''tpep_dropoff_datetime'', TIMESTAMP), (''store_and_fwd_flag'', TEXT)]"
  by (simp add: sql_columns_def index_label_def converted_frame_def converted_columns_def)

text \<open>
  Claim C7, as amended. Once the first batch has been read and converted and the table
  created from it, the table keeps its columns and their types to the end of the run,
  however the run ends: every later \<open>to_sql\<close> call is an appending one, and the loop never
  changes the columns of an existing table. The columns are the index column that \<open>to_sql\<close>
  writes in front (\<open>index\<close>, of type BIGINT), followed by the columns of the first batch
  with the two date-time columns of type TIMESTAMP.
\<close>

theorem schema_is_fixed_by_the_first_batch:
  assumes dl: "download_file env (url p) (csv_name p) w = (None, w1)"
    and ce: "create_engine env (connection_string p) = Inr con"
    and fl: "fs w1 (csv_name p) = Some (File bytes)"
    and rd: "read_csv env bytes 100000 = Inr (Inr d ## it)"
    and conv: "convert env d = Inr d2"
    and f0: "sql_fault env (length (sql_trace w)) = None"
    and ret: "main env p w = Some (Inr w')"
  shows "(\<exists>T cs. db w' (table_name p) = Some T \<and> tcolumns T = sql_columns d2
       \<and> sql_trace w' = sql_trace w @ (Replace, table_name p, 0) # cs \<and> (\<forall>c\<in>set cs. fst c = Append))
     \<and> sql_columns d2 = (index_label d, BIGINT) # map (\<lambda>(k, t). (k, sql_type t))
          (set_dtype ''tpep_dropoff_datetime'' Datetime64
             (set_dtype ''tpep_pickup_datetime'' Datetime64 (columns d)))
     \<and> (\<forall>name con' it' wa r wb Ta. load_rest env name con' it' wa = Some (r, wb) \<and> db wa name = Some Ta \<longrightarrow>
          (\<exists>Tb. db wb name = Some Tb \<and> tcolumns Tb = tcolumns Ta))"
proof (intro conjI allI impI)
  from ret dl ce obtain r w2 where ing: "ingest env (csv_name p) (table_name p) con w1 = Some (r, w2)"
    by (cases "ingest env (csv_name p) (table_name p) con w1") (auto simp: main_def)
  have tr: "sql_trace w1 = sql_trace w" using download_file_db[OF dl] by simp
  from ingest_after_create[OF fl rd conv _ ing] f0 tr
  obtain T cs where T: "db w2 (table_name p) = Some T" "tcolumns T = sql_columns d2"
    "sql_trace w2 = sql_trace w @ (Replace, table_name p, 0) # cs" "\<forall>c\<in>set cs. fst c = Append"
    by auto
  from main_processing[OF dl ce ing] ret
  have "db w' = db w2" "sql_trace w' = sql_trace w2"
    by (auto simp: info_def error_def split: option.splits)
  with T show "\<exists>T cs. db w' (table_name p) = Some T \<and> tcolumns T = sql_columns d2
       \<and> sql_trace w' = sql_trace w @ (Replace, table_name p, 0) # cs \<and> (\<forall>c\<in>set cs. fst c = Append)"
    by auto
next
  show "sql_columns d2 = (index_label d, BIGINT) # map (\<lambda>(k, t). (k, sql_type t))
          (set_dtype ''tpep_dropoff_datetime'' Datetime64
             (set_dtype ''tpep_pickup_datetime'' Datetime64 (columns d)))"
    using convert_rows[OF conv] index_label_convert[OF conv] by (simp add: sql_columns_def)
next
  fix name con' it' wa r wb Ta
  assume "load_rest env name con' it' wa = Some (r, wb) \<and> db wa name = Some Ta"
  with load_rest_schema_kept[of env name con' it' wa r wb]
  show "\<exists>Tb. db wb name = Some Tb \<and> tcolumns Tb = tcolumns Ta"
    by (simp add: schema_kept_def)
qed

theorem schema_is_fixed_by_the_first_batch_witness:
  "download_file env_one (url sample_params) (csv_name sample_params) world0 = (None, downloaded)
   \<and> create_engine env_one (connection_string sample_params) = Inr (Engine (connection_string sample_params))
   \<and> fs downloaded (csv_name sample_params) = Some (File ''a,b'')
   \<and> read_csv env_one ''a,b'' 100000 = Inr (Inr sample_frame ## exhausted)
   \<and> convert env_one sample_frame = Inr converted_frame
   \<and> sql_fault env_one (length (sql_trace world0)) = None
   \<and> main env_one sample_params world0 = Some (Inr final_one)
   \<and> tcolumns (the (db final_one (table_name sample_params))) = sql_columns converted_frame
   \<and> sql_columns converted_frame = (index_label sample_frame, BIGINT) # map (\<lambda>(k, t). (k, sql_type t))
          (set_dtype ''tpep_dropoff_datetime'' Datetime64
             (set_dtype ''tpep_pickup_datetime'' Datetime64 (columns sample_frame)))"
proof -
  have rd: "read_csv env_one ''a,b'' 100000 = Inr (Inr sample_frame ## exhausted)"
    by (simp add: env_one_def env_ok_def)
  have conv: "convert env_one sample_frame = Inr converted_frame"
    unfolding env_one_def by (rule convert_sample)
  have f0: "sql_fault env_one (length (sql_trace world0)) = None"
    by (simp add: env_one_def env_ok_def)
  note t = schema_is_fixed_by_the_first_batch[OF env_one_hyps(1-3) rd conv f0 main_one]
  from t obtain T where "db final_one (table_name sample_params) = Some T"
    "tcolumns T = sql_columns converted_frame" by blast
  then have c: "tcolumns (the (db final_one (table_name sample_params))) = sql_columns converted_frame"
    by simp
  from t have d: "sql_columns converted_frame = (index_label sample_frame, BIGINT) # map (\<lambda>(k, t). (k, sql_type t))
          (set_dtype ''tpep_dropoff_datetime'' Datetime64
             (set_dtype ''tpep_pickup_datetime'' Datetime64 (columns sample_frame)))"
    by blast
  show ?thesis
    by (intro conjI env_one_hyps(1-3) rd conv f0 main_one c d)
qed

text \<open>
  Claim C7 as stated says that the columns of the table are the columns of the first batch.
  In the sample run the table has the column \<open>index\<close>, which the batch does not have.
\<close>

theorem table_has_an_index_column:
  "main env_one sample_params world0 = Some (Inr final_one)
   \<and> convert env_one sample_frame = Inr converted_frame
   \<and> db final_one ''trips'' =
       Some \<lparr>tcolumns = [(''index'', BIGINT), (''VendorID'', BIGINT), (''tpep_pickup_datetime'', TIMESTAMP),
                (''tpep_dropoff_datetime'', TIMESTAMP), (''store_and_fwd_flag'', TEXT)],
             trows = rows converted_frame\<rparr>
   \<and> fst ` set (tcolumns (the (db final_one ''trips''))) \<noteq> fst ` set (columns converted_frame)"
proof -
  have t: "db final_one ''trips'' =
       Some \<lparr>tcolumns = [(''index'', BIGINT), (''VendorID'', BIGINT), (''tpep_pickup_datetime'', TIMESTAMP),
                (''tpep_dropoff_datetime'', TIMESTAMP), (''store_and_fwd_flag'', TEXT)],
             trows = rows converted_frame\<rparr>"
    by (simp only: final_one_table sql_columns_converted_frame)
  have i1: "''index'' \<in> fst ` set (tcolumns (the (db final_one ''trips'')))"
    unfolding t by simp
  have i2: "''index'' \<notin> fst ` set (columns converted_frame)"
    by (simp add: converted_frame_def converted_columns_def)
  from i1 i2 have n: "fst ` set (tcolumns (the (db final_one ''trips''))) \<noteq> fst ` set (columns converted_frame)"
    by metis
  have c: "convert env_one sample_frame = Inr converted_frame"
    unfolding env_one_def by (rule convert_sample)
  show ?thesis
    by (intro conjI main_one c t n)
qed


subsection \<open>The first batch\<close>

lemma write_chunk_db_upd:
  "write_chunk p (w\<lparr>db := D\<rparr>) c = (write_chunk p w c)\<lparr>db := D\<rparr>"
  by (simp add: write_chunk_def split: option.splits node.splits)

lemma foldl_write_db_upd:
  "foldl (write_chunk p) (w\<lparr>db := D\<rparr>) cs = (foldl (write_chunk p) w cs)\<lparr>db := D\<rparr>"
  by (induction cs arbitrary: w) (simp_all add: write_chunk_db_upd)

lemma info_db_upd: "info m (w\<lparr>db := D\<rparr>) = (info m w)\<lparr>db := D\<rparr>"
  by (simp add: info_def)

lemma error_db_upd: "error m (w\<lparr>db := D\<rparr>) = (error m w)\<lparr>db := D\<rparr>"
  by (simp add: error_def)

lemma open_wb_db_upd:
  "open_wb p (w\<lparr>db := D\<rparr>) = (case open_wb p w of Inl e \<Rightarrow> Inl e | Inr w2 \<Rightarrow> Inr (w2\<lparr>db := D\<rparr>))"
  by (simp add: open_wb_def is_dir_def)

lemma download_body_db_upd:
  "download_body env u c (w\<lparr>db := D\<rparr>) = (case download_body env u c w of (r, w1) \<Rightarrow> (r, w1\<lparr>db := D\<rparr>))"
  by (simp add: download_body_def Let_def info_db_upd open_wb_db_upd foldl_write_db_upd
      split: sum.splits option.splits prod.splits)

lemma download_file_db_upd:
  "download_file env u c (w\<lparr>db := D\<rparr>) = (case download_file env u c w of (r, w1) \<Rightarrow> (r, w1\<lparr>db := D\<rparr>))"
  by (simp add: download_file_def download_body_db_upd error_db_upd split: prod.splits option.splits)

lemma ingest_first_batch:
  assumes fl: "fs w csv = Some (File bytes)"
    and rd: "read_csv env bytes 100000 = Inr (Inr d ## it)"
    and conv: "convert env d = Inr d2"
    and f0: "sql_fault env (length (sql_trace w)) = None"
  shows "ingest env csv name con w =
     (case to_sql env d2 name con Append
        (info (Table_created name)
           (w\<lparr>sql_trace := sql_trace w @ [(Replace, name, 0)],
              db := (db w)(name \<mapsto> \<lparr>tcolumns = sql_columns d2, trows = []\<rparr>)\<rparr>)) of
        (Some e, w2) \<Rightarrow> Some (Some e, w2)
      | (None, w2) \<Rightarrow> load_rest env name con it (info First_chunk_inserted w2))"
proof -
  let ?wc = "w\<lparr>sql_trace := sql_trace w @ [(Replace, name, 0)],
              db := (db w)(name \<mapsto> \<lparr>tcolumns = sql_columns d2, trows = []\<rparr>)\<rparr>"
  have c: "to_sql env (head 0 d2) name con Replace w = (None, ?wc)"
    using to_sql_replace_ok[OF f0, of "head 0 d2" name con]
    by (simp add: sql_columns_head) (simp add: head_def)
  show ?thesis
    by (simp add: ingest_def fl rd next_chunk_def conv c del: to_sql_def)
qed

lemma ingest_replaces:
  assumes fl: "fs w csv = Some (File bytes)"
    and rd: "read_csv env bytes 100000 = Inr (Inr d ## it)"
    and conv: "convert env d = Inr d2"
    and f0: "sql_fault env (length (sql_trace w)) = None"
  shows "ingest env csv name con (w\<lparr>db := (db w)(name := x)\<rparr>) = ingest env csv name con w"
proof -
  let ?w = "w\<lparr>db := (db w)(name := x)\<rparr>"
  have "fs ?w csv = Some (File bytes)" "sql_fault env (length (sql_trace ?w)) = None"
    using fl f0 by simp_all
  from ingest_first_batch[OF this(1) rd conv this(2), of name con]
  show ?thesis
    unfolding ingest_first_batch[OF fl rd conv f0, of name con] by simp
qed

lemma sql_columns_convert:
  assumes "convert env d = Inr d2"
  shows "sql_columns d2 =
     (index_label d, BIGINT) #
       map (\<lambda>(k, t). (k, sql_type t))
         (set_dtype ''tpep_dropoff_datetime'' Datetime64
            (set_dtype ''tpep_pickup_datetime'' Datetime64 (columns d)))"
  using convert_rows[OF assms] index_label_convert[OF assms] by (simp add: sql_columns_def)

lemma map_fst_set_dtype: "map fst (set_dtype c t cols) = map fst cols"
  by (induction cols) (auto simp: set_dtype_def)

lemma map_fst_sql_type: "map fst (map (\<lambda>(k, t). (k, sql_type t)) cols) = map fst cols"
  by (induction cols) auto

text \<open>
  Claim C3. When the first batch \<open>d\<close> has been read and converted and the database accepts
  the creating call, that call leaves the table with no rows and with these columns,
  whatever the table held before: the index column of type BIGINT in front, then the
  columns of \<open>d\<close> in their order and under their names, each with the SQL type of its
  type, the two date-time columns taken as date-time. The call is recorded as the one
  replacing call, made before any appending call: the load goes on from the world it
  leaves. And the whole run ends in the same world whether the table existed before or
  not, and whatever it held.
\<close>

theorem first_batch_replaces_the_table:
  assumes dl: "download_file env (url p) (csv_name p) w = (None, w1)"
    and ce: "create_engine env (connection_string p) = Inr con"
    and fl: "fs w1 (csv_name p) = Some (File bytes)"
    and rd: "read_csv env bytes 100000 = Inr (Inr d ## it)"
    and conv: "convert env d = Inr d2"
    and f0: "sql_fault env (length (sql_trace w)) = None"
  shows "to_sql env (head 0 d2) (table_name p) con Replace w1 =
       (None, w1\<lparr>sql_trace := sql_trace w1 @ [(Replace, table_name p, 0)],
                 db := (db w1)(table_name p \<mapsto>
                   \<lparr>tcolumns = (index_label d, BIGINT) #
                       map (\<lambda>(k, t). (k, sql_type t))
                         (set_dtype ''tpep_dropoff_datetime'' Datetime64
                            (set_dtype ''tpep_pickup_datetime'' Datetime64 (columns d))),
                     trows = []\<rparr>)\<rparr>)
     \<and> map fst (sql_columns d2) = index_label d # map fst (columns d)
     \<and> ingest env (csv_name p) (table_name p) con w1 =
       (case to_sql env d2 (table_name p) con Append
          (info (Table_created (table_name p))
             (w1\<lparr>sql_trace := sql_trace w1 @ [(Replace, table_name p, 0)],
                 db := (db w1)(table_name p \<mapsto>
                   \<lparr>tcolumns = (index_label d, BIGINT) #
                       map (\<lambda>(k, t). (k, sql_type t))
                         (set_dtype ''tpep_dropoff_datetime'' Datetime64
                            (set_dtype ''tpep_pickup_datetime'' Datetime64 (columns d))),
                     trows = []\<rparr>)\<rparr>)) of
          (Some e, w2) \<Rightarrow> Some (Some e, w2)
        | (None, w2) \<Rightarrow> load_rest env (table_name p) con it (info First_chunk_inserted w2))
     \<and> main env p (w\<lparr>db := (db w)(table_name p := x)\<rparr>) = main env p w"
proof (intro conjI)
  have tr: "sql_trace w1 = sql_trace w" "db w1 = db w" using download_file_db[OF dl] by simp_all
  have f1: "sql_fault env (length (sql_trace w1)) = None" using f0 tr by simp
  note cols = sql_columns_convert[OF conv]
  have "to_sql env (head 0 d2) (table_name p) con Replace w1 =
       (None, w1\<lparr>sql_trace := sql_trace w1 @ [(Replace, table_name p, 0)],
                 db := (db w1)(table_name p \<mapsto> \<lparr>tcolumns = sql_columns d2, trows = []\<rparr>)\<rparr>)"
    using to_sql_replace_ok[OF f1, of "head 0 d2" "table_name p" con]
    by (simp add: sql_columns_head) (simp add: head_def)
  then show "to_sql env (head 0 d2) (table_name p) con Replace w1 =
       (None, w1\<lparr>sql_trace := sql_trace w1 @ [(Replace, table_name p, 0)],
                 db := (db w1)(table_name p \<mapsto>
                   \<lparr>tcolumns = (index_label d, BIGINT) #
                       map (\<lambda>(k, t). (k, sql_type t))
                         (set_dtype ''tpep_dropoff_datetime'' Datetime64
                            (set_dtype ''tpep_pickup_datetime'' Datetime64 (columns d))),
                     trows = []\<rparr>)\<rparr>)"
    by (simp only: cols)
  show "map fst (sql_columns d2) = index_label d # map fst (columns d)"
    by (simp only: cols list.map fst_conv map_fst_sql_type map_fst_set_dtype)
  have "ingest env (csv_name p) (table_name p) con w1 =
       (case to_sql env d2 (table_name p) con Append
          (info (Table_created (table_name p))
             (w1\<lparr>sql_trace := sql_trace w1 @ [(Replace, table_name p, 0)],
                 db := (db w1)(table_name p \<mapsto> \<lparr>tcolumns = sql_columns d2, trows = []\<rparr>)\<rparr>)) of
          (Some e, w2) \<Rightarrow> Some (Some e, w2)
        | (None, w2) \<Rightarrow> load_rest env (table_name p) con it (info First_chunk_inserted w2))"
    by (rule ingest_first_batch[OF fl rd conv f1])
  then show "ingest env (csv_name p) (table_name p) con w1 =
       (case to_sql env d2 (table_name p) con Append
          (info (Table_created (table_name p))
             (w1\<lparr>sql_trace := sql_trace w1 @ [(Replace, table_name p, 0)],
                 db := (db w1)(table_name p \<mapsto>
                   \<lparr>tcolumns = (index_label d, BIGINT) #
                       map (\<lambda>(k, t). (k, sql_type t))
                         (set_dtype ''tpep_dropoff_datetime'' Datetime64
                            (set_dtype ''tpep_pickup_datetime'' Datetime64 (columns d))),
                     trows = []\<rparr>)\<rparr>)) of
          (Some e, w2) \<Rightarrow> Some (Some e, w2)
        | (None, w2) \<Rightarrow> load_rest env (table_name p) con it (info First_chunk_inserted w2))"
    by (simp only: cols)
  let ?D = "(db w)(table_name p := x)"
  have dl': "download_file env (url p) (csv_name p) (w\<lparr>db := ?D\<rparr>) = (None, w1\<lparr>db := ?D\<rparr>)"
    by (simp add: download_file_db_upd dl)
  have "w1\<lparr>db := ?D\<rparr> = w1\<lparr>db := (db w1)(table_name p := x)\<rparr>" using tr by simp
  then have i: "ingest env (csv_name p) (table_name p) con (w1\<lparr>db := ?D\<rparr>)
      = ingest env (csv_name p) (table_name p) con w1"
    using ingest_replaces[OF fl rd conv f1, of "table_name p" con x] by simp
  show "main env p (w\<lparr>db := ?D\<rparr>) = main env p w"
    by (simp add: main_def dl dl' ce i del: fun_upd_apply)
qed

theorem first_batch_replaces_the_table_witness:
  "download_file env_one (url sample_params) (csv_name sample_params) world0 = (None, downloaded)
   \<and> create_engine env_one (connection_string sample_params) = Inr (Engine (connection_string sample_params))
   \<and> fs downloaded (csv_name sample_params) = Some (File ''a,b'')
   \<and> read_csv env_one ''a,b'' 100000 = Inr (Inr sample_frame ## exhausted)
   \<and> convert env_one sample_frame = Inr converted_frame
   \<and> sql_fault env_one (length (sql_trace world0)) = None
   \<and> db world0 (table_name sample_params) = Some old_table
   \<and> to_sql env_one (head 0 converted_frame) ''trips'' (Engine (connection_string sample_params))
        Replace downloaded =
       (None, downloaded\<lparr>sql_trace := [(Replace, ''trips'', 0)],
                 db := [''trips'' \<mapsto>
                   \<lparr>tcolumns = [(''index'', BIGINT), (''VendorID'', BIGINT),
                       (''tpep_pickup_datetime'', TIMESTAMP), (''tpep_dropoff_datetime'', TIMESTAMP),
                       (''store_and_fwd_flag'', TEXT)],
                     trows = []\<rparr>]\<rparr>)
   \<and> map fst (sql_columns converted_frame) =
       [''index'', ''VendorID'', ''tpep_pickup_datetime'', ''tpep_dropoff_datetime'', ''store_and_fwd_flag'']
   \<and> main env_one sample_params (world0\<lparr>db := (db world0)(table_name sample_params := None)\<rparr>)
       = main env_one sample_params world0
   \<and> main env_one sample_params world0 = Some (Inr final_one)
   \<and> db final_one ''trips'' =
       Some \<lparr>tcolumns = [(''index'', BIGINT), (''VendorID'', BIGINT),
                (''tpep_pickup_datetime'', TIMESTAMP), (''tpep_dropoff_datetime'', TIMESTAMP),
                (''store_and_fwd_flag'', TEXT)],
             trows = [(0, converted_fields), (1, converted_fields)]\<rparr>
   \<and> sql_trace final_one = [(Replace, ''trips'', 0), (Append, ''trips'', 2)]"
proof -
  have rd: "read_csv env_one ''a,b'' 100000 = Inr (Inr sample_frame ## exhausted)"
    by (simp add: env_one_def env_ok_def)
  have conv: "convert env_one sample_frame = Inr converted_frame"
    unfolding env_one_def by (rule convert_sample)
  have f0: "sql_fault env_one (length (sql_trace world0)) = None"
    by (simp add: env_one_def env_ok_def)
  have old: "db world0 (table_name sample_params) = Some old_table"
    by (simp add: world0_def table_name_sample)
  note t = first_batch_replaces_the_table[OF env_one_hyps(1-3) rd conv f0, of None]
  from t have m: "main env_one sample_params (world0\<lparr>db := (db world0)(table_name sample_params := None)\<rparr>)
       = main env_one sample_params world0"
    by (elim conjE)
  from t have c: "to_sql env_one (head 0 converted_frame) ''trips'' (Engine (connection_string sample_params))
        Replace downloaded =
       (None, downloaded\<lparr>sql_trace := [(Replace, ''trips'', 0)],
                 db := [''trips'' \<mapsto>
                   \<lparr>tcolumns = [(''index'', BIGINT), (''VendorID'', BIGINT),
                       (''tpep_pickup_datetime'', TIMESTAMP), (''tpep_dropoff_datetime'', TIMESTAMP),
                       (''store_and_fwd_flag'', TEXT)],
                     trows = []\<rparr>]\<rparr>)"
    by (simp add: table_name_sample index_label_def set_dtype_def sample_frame_def sample_columns_def
        downloaded_def world0_def)
  from t have n: "map fst (sql_columns converted_frame) =
       [''index'', ''VendorID'', ''tpep_pickup_datetime'', ''tpep_dropoff_datetime'', ''store_and_fwd_flag'']"
    by (simp add: index_label_def sample_frame_def sample_columns_def)
  have tb: "db final_one ''trips'' =
       Some \<lparr>tcolumns = [(''index'', BIGINT), (''VendorID'', BIGINT),
                (''tpep_pickup_datetime'', TIMESTAMP), (''tpep_dropoff_datetime'', TIMESTAMP),
                (''store_and_fwd_flag'', TEXT)],
             trows = [(0, converted_fields), (1, converted_fields)]\<rparr>"
    by (simp add: final_one_table sql_columns_converted_frame) (simp add: converted_frame_def)
  have tc: "sql_trace final_one = [(Replace, ''trips'', 0), (Append, ''trips'', 2)]"
    by (simp add: final_one_def info_def loaded_def downloaded_def world0_def converted_frame_def)
  show ?thesis
    by (intro conjI env_one_hyps(1-3) rd conv f0 old c n m main_one tb tc)
qed


subsection \<open>A batch that fails\<close>

lemma main_first_batch_fails:
  fixes env :: "'c env"
  assumes dl: "download_file env (url p) (csv_name p) w = (None, w1)"
    and ce: "create_engine env (connection_string p) = Inr con"
    and fl: "fs w1 (csv_name p) = Some (File bytes)"
    and rd: "read_csv env bytes 100000 = Inr it"
    and bad: "first_batch_fails env (length (sql_trace w)) (shd it) e"
  shows "\<exists>w'. main env p w = Some (Inr w') \<and> (ERROR, Error_processing_data e) \<in> set (log_records w')
     \<and> fs w' (csv_name p) = None
     \<and> (db w' = db w \<or> (\<exists>d2 :: 'c frame. db w' = (db w)(table_name p \<mapsto> \<lparr>tcolumns = sql_columns d2, trows = []\<rparr>)))
     \<and> length (sql_trace w') \<le> length (sql_trace w) + 2"
proof -
  let ?name = "table_name p"
  have tr: "sql_trace w1 = sql_trace w" "db w1 = db w" using download_file_db[OF dl] by simp_all
  have "\<exists>w2. ingest env (csv_name p) ?name con w1 = Some (Some e, w2) \<and> fs w2 = fs w1
     \<and> (db w2 = db w \<or> (\<exists>d2 :: 'c frame. db w2 = (db w)(?name \<mapsto> \<lparr>tcolumns = sql_columns d2, trows = []\<rparr>)))
     \<and> length (sql_trace w2) \<le> length (sql_trace w) + 2"
  proof (cases "shd it")
    case (Inl x)
    with bad have "ingest env (csv_name p) ?name con w1 = Some (Some e, w1)"
      by (simp add: ingest_def fl rd next_chunk_def first_batch_fails_def)
    with tr show ?thesis by simp
  next
    case df: (Inr df)
    show ?thesis
    proof (cases "convert env df")
      case (Inl x)
      with bad df have "ingest env (csv_name p) ?name con w1 = Some (Some e, w1)"
        by (simp add: ingest_def fl rd next_chunk_def first_batch_fails_def)
      with tr show ?thesis by simp
    next
      case (Inr df2)
      obtain it' where it: "it = Inr df ## it'" using df by (cases it) simp
      have rd': "read_csv env bytes 100000 = Inr (Inr df ## it')" using rd it by simp
      show ?thesis
      proof (cases "sql_fault env (length (sql_trace w1))")
        case (Some x)
        with bad df Inr tr have x: "x = e" by (simp add: first_batch_fails_def)
        have "ingest env (csv_name p) ?name con w1 =
            Some (Some e, w1\<lparr>sql_trace := sql_trace w1 @ [(Replace, ?name, length (rows (head 0 df2)))]\<rparr>)"
          using Some x by (simp add: ingest_def fl rd next_chunk_def df Inr to_sql_fault del: to_sql_def)
        with tr show ?thesis by simp
      next
        case None
        with bad df Inr tr have f1: "sql_fault env (Suc (length (sql_trace w1))) = Some e"
          by (simp add: first_batch_fails_def)
        let ?wc = "w1\<lparr>sql_trace := sql_trace w1 @ [(Replace, ?name, 0)],
              db := (db w1)(?name \<mapsto> \<lparr>tcolumns = sql_columns df2, trows = []\<rparr>)\<rparr>"
        let ?wt = "info (Table_created ?name) ?wc"
        have a: "to_sql env df2 ?name con Append ?wt =
            (Some e, ?wt\<lparr>sql_trace := sql_trace ?wt @ [(Append, ?name, length (rows df2))]\<rparr>)"
          by (rule to_sql_fault) (simp add: info_def f1)
        let ?w2 = "?wt\<lparr>sql_trace := sql_trace ?wt @ [(Append, ?name, length (rows df2))]\<rparr>"
        have i: "ingest env (csv_name p) ?name con w1 = Some (Some e, ?w2)"
          unfolding ingest_first_batch[OF fl rd' Inr None]
          by (simp add: a del: to_sql_def)
        have p1: "fs ?w2 = fs w1" by (simp add: info_def)
        have p2: "length (sql_trace ?w2) \<le> length (sql_trace w) + 2"
          using tr by (simp add: info_def)
        have p3: "db ?w2 = (db w)(?name \<mapsto> \<lparr>tcolumns = sql_columns df2, trows = []\<rparr>)"
          using tr by (simp add: info_def)
        have p4: "db ?w2 = db w \<or> (\<exists>d2 :: 'c frame. db ?w2 = (db w)(?name \<mapsto> \<lparr>tcolumns = sql_columns d2, trows = []\<rparr>))"
          by (intro disjI2 exI) (rule p3)
        show ?thesis
          by (rule exI[of _ ?w2]) (intro conjI i p1 p4 p2)
      qed
    qed
  qed
  then obtain w2 where w2: "ingest env (csv_name p) ?name con w1 = Some (Some e, w2)" "fs w2 = fs w1"
    "db w2 = db w \<or> (\<exists>d2 :: 'c frame. db w2 = (db w)(?name \<mapsto> \<lparr>tcolumns = sql_columns d2, trows = []\<rparr>))"
    "length (sql_trace w2) \<le> length (sql_trace w) + 2" by blast
  let ?w' = "info (Temporary_file_deleted (csv_name p))
      ((error (Error_processing_data e) w2)\<lparr>fs := (fs w2)(csv_name p := None)\<rparr>)"
  have m: "main env p w = Some (Inr ?w')"
    using main_processing[OF dl ce w2(1)] by simp
  have q1: "(ERROR, Error_processing_data e) \<in> set (log_records ?w')"
    by (simp add: info_def error_def)
  have q2: "fs ?w' (csv_name p) = None"
    by (simp add: info_def error_def)
  have q3: "db ?w' = db w2" by (simp add: info_def error_def)
  have q4: "sql_trace ?w' = sql_trace w2" by (simp add: info_def error_def)
  show ?thesis
    by (rule exI[of _ ?w']) (intro conjI m q1 q2 w2(3)[folded q3] w2(4)[folded q4])
qed


lemma main_later_batch_fails:
  fixes env :: "'c env"
  assumes dl: "download_file env (url p) (csv_name p) w = (None, w1)"
    and ce: "create_engine env (connection_string p) = Inr con"
    and fl: "fs w1 (csv_name p) = Some (File bytes)"
    and rd: "read_csv env bytes 100000 = Inr (map Inr (d # ds) @- bad ## rest)"
    and conv: "map (convert env) (d # ds) = map Inr (d2 # ds2)"
    and nf: "\<forall>i<length ds + 2. sql_fault env (length (sql_trace w) + i) = None"
    and bad: "batch_fails env (length (sql_trace w) + length ds + 2) bad e"
  shows "\<exists>w'. main env p w = Some (Inr w')
     \<and> db w' = (db w)(table_name p \<mapsto> \<lparr>tcolumns = sql_columns d2, trows = concat (map rows (d2 # ds2))\<rparr>)
     \<and> fs w' (csv_name p) = None
     \<and> (if e = StopIteration then (INFO, Finished_ingesting) else (ERROR, Error_processing_data e))
          \<in> set (log_records w')
     \<and> (\<exists>a. sql_trace w' = sql_trace w @ (Replace, table_name p, 0)
            # map (\<lambda>x. (Append, table_name p, length (rows x))) (d2 # ds2) @ a \<and> length a \<le> 1)"
proof -
  let ?name = "table_name p"
  let ?L = "loaded ?name d2 ds2 w1"
  have tr: "sql_trace w1 = sql_trace w" "db w1 = db w" using download_file_db[OF dl] by simp_all
  have nf1: "\<forall>i<length ds + 2. sql_fault env (length (sql_trace w1) + i) = None"
    using nf tr by simp
  have i: "ingest env (csv_name p) ?name con w1 = load_rest env ?name con (bad ## rest) ?L"
    by (rule ingest_prefix[OF fl rd conv nf1])
  have len: "length ds2 = length ds" using conv by (metis length_map length_Cons nat.inject)
  have "length (sql_trace ?L) = length (sql_trace w) + length ds + 2"
    by (simp add: loaded_def tr len)
  with bad have bad': "batch_fails env (length (sql_trace ?L)) bad e" by simp
  from load_rest_bad[OF bad', of ?name con rest] obtain w2 where
    w2: "load_rest env ?name con (bad ## rest) ?L =
        Some (if e = StopIteration then (None, info Finished_ingesting w2) else (Some e, w2))"
      "db w2 = db ?L" "fs w2 = fs ?L" "log_records w2 = log_records ?L"
      "sql_trace w2 = sql_trace ?L \<or> (\<exists>k. sql_trace w2 = sql_trace ?L @ [(Append, ?name, k)])"
    by blast
  let ?r = "if e = StopIteration then None else Some e"
  let ?w3 = "if e = StopIteration then info Finished_ingesting w2 else w2"
  have i': "ingest env (csv_name p) ?name con w1 = Some (?r, ?w3)"
    unfolding i w2(1) by simp
  let ?w' = "info (Temporary_file_deleted (csv_name p))
     ((case ?r of None \<Rightarrow> ?w3 | Some e \<Rightarrow> error (Error_processing_data e) ?w3)
        \<lparr>fs := (fs ?w3)(csv_name p := None)\<rparr>)"
  have m: "main env p w = Some (Inr ?w')"
    by (rule main_processing[OF dl ce i'])
  have q1: "db ?w' = (db w)(?name \<mapsto> \<lparr>tcolumns = sql_columns d2, trows = concat (map rows (d2 # ds2))\<rparr>)"
    using w2(2) tr by (simp add: info_def error_def loaded_def)
  have q2: "fs ?w' (csv_name p) = None"
    by (simp add: info_def error_def)
  have q3: "(if e = StopIteration then (INFO, Finished_ingesting) else (ERROR, Error_processing_data e))
          \<in> set (log_records ?w')"
    by (simp add: info_def error_def)
  have t3: "sql_trace ?w' = sql_trace w2"
    by (simp add: info_def error_def)
  have tL: "sql_trace ?L = sql_trace w @ (Replace, ?name, 0)
            # map (\<lambda>x. (Append, ?name, length (rows x))) (d2 # ds2)"
    by (simp add: loaded_def tr)
  have q4: "\<exists>a. sql_trace ?w' = sql_trace w @ (Replace, ?name, 0)
            # map (\<lambda>x. (Append, ?name, length (rows x))) (d2 # ds2) @ a \<and> length a \<le> 1"
  proof (rule disjE[OF w2(5)])
    assume "sql_trace w2 = sql_trace ?L"
    then have "sql_trace ?w' = sql_trace w @ (Replace, ?name, 0)
            # map (\<lambda>x. (Append, ?name, length (rows x))) (d2 # ds2) @ [] \<and> length ([] :: (if_exists \<times> string \<times> nat) list) \<le> 1"
      unfolding t3 tL by simp
    then show ?thesis by (rule exI)
  next
    assume "\<exists>k. sql_trace w2 = sql_trace ?L @ [(Append, ?name, k)]"
    then obtain k where "sql_trace w2 = sql_trace ?L @ [(Append, ?name, k)]" ..
    then have "sql_trace ?w' = sql_trace w @ (Replace, ?name, 0)
            # map (\<lambda>x. (Append, ?name, length (rows x))) (d2 # ds2) @ [(Append, ?name, k)]
          \<and> length [(Append, ?name, k)] \<le> 1"
      unfolding t3 tL by simp
    then show ?thesis by (rule exI)
  qed
  show ?thesis
    by (rule exI[of _ ?w']) (intro conjI m q1 q2 q3 q4)
qed


text \<open>
  Claim C4. When the first batch fails (its read, its conversion, the creating call or its
  appending call raises), \<open>main\<close> logs the error, deletes the staging file and returns; the
  table is as it was, or has been replaced by an empty one, and no further batch is
  attempted. When the batches \<open>d # ds\<close> have been loaded and the next one fails, \<open>main\<close>
  deletes the staging file and returns, the table holds exactly the rows of the batches
  loaded before, and the only \<open>to_sql\<close> call after theirs is, at most, the one that
  failed: the batches that follow are never read. The error is logged, unless the
  exception is a \<open>StopIteration\<close>, which the loop takes for the end of the data.
\<close>

theorem failed_batch_keeps_earlier_batches:
  fixes env :: "'c env"
  assumes dl: "download_file env (url p) (csv_name p) w = (None, w1)"
    and ce: "create_engine env (connection_string p) = Inr con"
    and fl: "fs w1 (csv_name p) = Some (File bytes)"
    and rd: "read_csv env bytes 100000 = Inr it"
  shows "(first_batch_fails env (length (sql_trace w)) (shd it) e \<longrightarrow>
      (\<exists>w'. main env p w = Some (Inr w') \<and> (ERROR, Error_processing_data e) \<in> set (log_records w')
         \<and> fs w' (csv_name p) = None
         \<and> (db w' = db w
             \<or> (\<exists>d2 :: 'c frame. db w' = (db w)(table_name p \<mapsto> \<lparr>tcolumns = sql_columns d2, trows = []\<rparr>)))
         \<and> length (sql_trace w') \<le> length (sql_trace w) + 2))
   \<and> (it = map Inr (d # ds) @- bad ## rest
        \<and> map (convert env) (d # ds) = map Inr (d2 # ds2)
        \<and> (\<forall>i<length ds + 2. sql_fault env (length (sql_trace w) + i) = None)
        \<and> batch_fails env (length (sql_trace w) + length ds + 2) bad e \<longrightarrow>
      (\<exists>w'. main env p w = Some (Inr w')
         \<and> db w' = (db w)(table_name p \<mapsto> \<lparr>tcolumns = sql_columns d2, trows = concat (map rows (d2 # ds2))\<rparr>)
         \<and> fs w' (csv_name p) = None
         \<and> (if e = StopIteration then (INFO, Finished_ingesting) else (ERROR, Error_processing_data e))
              \<in> set (log_records w')
         \<and> (\<exists>a. sql_trace w' = sql_trace w @ (Replace, table_name p, 0)
                # map (\<lambda>x. (Append, table_name p, length (rows x))) (d2 # ds2) @ a \<and> length a \<le> 1)))"
proof (intro conjI impI)
  assume "first_batch_fails env (length (sql_trace w)) (shd it) e"
  then show "\<exists>w'. main env p w = Some (Inr w') \<and> (ERROR, Error_processing_data e) \<in> set (log_records w')
         \<and> fs w' (csv_name p) = None
         \<and> (db w' = db w
             \<or> (\<exists>d2 :: 'c frame. db w' = (db w)(table_name p \<mapsto> \<lparr>tcolumns = sql_columns d2, trows = []\<rparr>)))
         \<and> length (sql_trace w') \<le> length (sql_trace w) + 2"
    by (rule main_first_batch_fails[OF dl ce fl rd])
next
  assume a: "it = map Inr (d # ds) @- bad ## rest
        \<and> map (convert env) (d # ds) = map Inr (d2 # ds2)
        \<and> (\<forall>i<length ds + 2. sql_fault env (length (sql_trace w) + i) = None)
        \<and> batch_fails env (length (sql_trace w) + length ds + 2) bad e"
  then have rd': "read_csv env bytes 100000 = Inr (map Inr (d # ds) @- bad ## rest)"
    using rd by simp
  from a have conv: "map (convert env) (d # ds) = map Inr (d2 # ds2)"
    and nf: "\<forall>i<length ds + 2. sql_fault env (length (sql_trace w) + i) = None"
    and bad: "batch_fails env (length (sql_trace w) + length ds + 2) bad e"
    by simp_all
  show "\<exists>w'. main env p w = Some (Inr w')
         \<and> db w' = (db w)(table_name p \<mapsto> \<lparr>tcolumns = sql_columns d2, trows = concat (map rows (d2 # ds2))\<rparr>)
         \<and> fs w' (csv_name p) = None
         \<and> (if e = StopIteration then (INFO, Finished_ingesting) else (ERROR, Error_processing_data e))
              \<in> set (log_records w')
         \<and> (\<exists>a. sql_trace w' = sql_trace w @ (Replace, table_name p, 0)
                # map (\<lambda>x. (Append, table_name p, length (rows x))) (d2 # ds2) @ a \<and> length a \<le> 1)"
    by (rule main_later_batch_fails[OF dl ce fl rd' conv nf bad])
qed

lemma convert_bad: "convert (env_ok it) bad_frame = Inl DateParseError"
  by (simp add: convert_def to_datetime_column_def bad_frame_def sample_columns_def bad_fields_def
      cell_to_datetime_def env_ok_def)

theorem failed_batch_keeps_earlier_batches_witness:
  "download_file env_bad_first (url sample_params) (csv_name sample_params) world0 = (None, downloaded)
   \<and> create_engine env_bad_first (connection_string sample_params) = Inr (Engine (connection_string sample_params))
   \<and> fs downloaded (csv_name sample_params) = Some (File ''a,b'')
   \<and> read_csv env_bad_first ''a,b'' 100000 = Inr (Inr bad_frame ## exhausted)
   \<and> first_batch_fails env_bad_first (length (sql_trace world0)) (shd (Inr bad_frame ## exhausted)) DateParseError
   \<and> (\<exists>w'. main env_bad_first sample_params world0 = Some (Inr w')
         \<and> (ERROR, Error_processing_data DateParseError) \<in> set (log_records w')
         \<and> fs w' (csv_name sample_params) = None
         \<and> length (sql_trace w') \<le> length (sql_trace world0) + 2)
   \<and> download_file env_bad_second (url sample_params) (csv_name sample_params) world0 = (None, downloaded)
   \<and> create_engine env_bad_second (connection_string sample_params) = Inr (Engine (connection_string sample_params))
   \<and> read_csv env_bad_second ''a,b'' 100000 = Inr (map Inr (sample_frame # []) @- Inr bad_frame ## exhausted)
   \<and> map (convert env_bad_second) (sample_frame # []) = map Inr (converted_frame # [])
   \<and> sql_fault env_bad_second (length (sql_trace world0) + 0) = None
   \<and> sql_fault env_bad_second (length (sql_trace world0) + 1) = None
   \<and> batch_fails env_bad_second (length (sql_trace world0) + length ([] :: cell frame list) + 2)
         (Inr bad_frame) DateParseError
   \<and> (\<exists>w'. main env_bad_second sample_params world0 = Some (Inr w')
         \<and> db w' = (db world0)(table_name sample_params \<mapsto>
               \<lparr>tcolumns = sql_columns converted_frame, trows = concat (map rows (converted_frame # []))\<rparr>)
         \<and> fs w' (csv_name sample_params) = None
         \<and> (ERROR, Error_processing_data DateParseError) \<in> set (log_records w'))"
proof -
  let ?con = "Engine (connection_string sample_params)"
  have dl1: "download_file env_bad_first (url sample_params) (csv_name sample_params) world0 = (None, downloaded)"
    by (simp add: csv_name_sample download_sample env_bad_first_def)
  have ce1: "create_engine env_bad_first (connection_string sample_params) = Inr ?con"
    by (simp add: env_bad_first_def env_ok_def)
  have fl: "fs downloaded (csv_name sample_params) = Some (File ''a,b'')"
    by (simp add: csv_name_sample downloaded_def)
  have rd1: "read_csv env_bad_first ''a,b'' 100000 = Inr (Inr bad_frame ## exhausted)"
    by (simp add: env_bad_first_def env_ok_def)
  have b1: "first_batch_fails env_bad_first (length (sql_trace world0)) (shd (Inr bad_frame ## exhausted)) DateParseError"
    by (simp add: first_batch_fails_def env_bad_first_def convert_bad)
  note t1 = failed_batch_keeps_earlier_batches[OF dl1 ce1 fl rd1, THEN conjunct1, THEN mp, OF b1]
  from t1 have c1: "\<exists>w'. main env_bad_first sample_params world0 = Some (Inr w')
         \<and> (ERROR, Error_processing_data DateParseError) \<in> set (log_records w')
         \<and> fs w' (csv_name sample_params) = None
         \<and> length (sql_trace w') \<le> length (sql_trace world0) + 2"
    by (elim exE conjE) (intro exI conjI, assumption+)
  have dl2: "download_file env_bad_second (url sample_params) (csv_name sample_params) world0 = (None, downloaded)"
    by (simp add: csv_name_sample download_sample env_bad_second_def)
  have ce2: "create_engine env_bad_second (connection_string sample_params) = Inr ?con"
    by (simp add: env_bad_second_def env_ok_def)
  have rd2: "read_csv env_bad_second ''a,b'' 100000 = Inr (map Inr (sample_frame # []) @- Inr bad_frame ## exhausted)"
    by (simp add: env_bad_second_def env_ok_def)
  have conv: "map (convert env_bad_second) (sample_frame # []) = map Inr (converted_frame # [])"
    by (simp add: env_bad_second_def convert_sample)
  have f0: "sql_fault env_bad_second (length (sql_trace world0) + 0) = None"
    and f1: "sql_fault env_bad_second (length (sql_trace world0) + 1) = None"
    by (simp_all add: env_bad_second_def env_ok_def)
  have nf: "\<forall>i<length ([] :: cell frame list) + 2. sql_fault env_bad_second (length (sql_trace world0) + i) = None"
    by (simp add: env_bad_second_def env_ok_def)
  have b2: "batch_fails env_bad_second (length (sql_trace world0) + length ([] :: cell frame list) + 2)
         (Inr bad_frame) DateParseError"
    by (simp add: batch_fails_def env_bad_second_def convert_bad)
  have hyp: "map Inr (sample_frame # []) @- Inr bad_frame ## exhausted
        = map Inr (sample_frame # []) @- Inr bad_frame ## exhausted
      \<and> map (convert env_bad_second) (sample_frame # []) = map Inr (converted_frame # [])
      \<and> (\<forall>i<length ([] :: cell frame list) + 2. sql_fault env_bad_second (length (sql_trace world0) + i) = None)
      \<and> batch_fails env_bad_second (length (sql_trace world0) + length ([] :: cell frame list) + 2)
           (Inr bad_frame) DateParseError"
    by (intro conjI refl conv nf b2)
  note t2 = failed_batch_keeps_earlier_batches[OF dl2 ce2 fl rd2, THEN conjunct2, THEN mp, OF hyp]
  from t2 have c2: "\<exists>w'. main env_bad_second sample_params world0 = Some (Inr w')
         \<and> db w' = (db world0)(table_name sample_params \<mapsto>
               \<lparr>tcolumns = sql_columns converted_frame, trows = concat (map rows (converted_frame # []))\<rparr>)
         \<and> fs w' (csv_name sample_params) = None
         \<and> (ERROR, Error_processing_data DateParseError) \<in> set (log_records w')"
    by (elim exE conjE) (intro exI conjI, simp_all)
  show ?thesis
    by (intro conjI dl1 ce1 fl rd1 b1 c1 dl2 ce2 rd2 conv f0 f1 b2 c2)
qed


subsection \<open>A file without data rows\<close>






end
